theory Spec2Isabelle
  imports Main "HOL-Library.Sublist" "HOL-Library.Monad_Syntax"
begin

section \<open>Data model\<close>

subsection \<open>JSON values and JavaScript truthiness\<close>

text \<open>
  The values that \<open>request.json()\<close> hands to the handlers. Numbers are the integers (the
  handlers never compute with a number; they only test it with \<open>||\<close>). An object is the
  list of its members.
\<close>

datatype json =
    JNull
  | JBool bool
  | JNum int
  | JStr string
  | JArr "json list"
  | JObj "(string \<times> json) list"

text \<open>JavaScript's \<open>ToBoolean\<close> on a JSON value: every object and array is truthy.\<close>

fun truthy :: "json \<Rightarrow> bool" where
  "truthy JNull = False"
| "truthy (JBool b) = b"
| "truthy (JNum n) = (n \<noteq> 0)"
| "truthy (JStr s) = (s \<noteq> [])"
| "truthy (JArr xs) = True"
| "truthy (JObj kvs) = True"

text \<open>\<open>x || d\<close> for a destructured body member (\<open>None\<close> is \<open>undefined\<close>).\<close>

definition or_default :: "json option \<Rightarrow> json \<Rightarrow> json" where
  "or_default x d = (case x of None \<Rightarrow> d | Some v \<Rightarrow> if truthy v then v else d)"

text \<open>\<open>s || d\<close> and \<open>!s\<close> for a string member, \<open>n || null\<close> for a numeric one.\<close>

definition str_or :: "string option \<Rightarrow> string \<Rightarrow> string" where
  "str_or x d = (case x of None \<Rightarrow> d | Some s \<Rightarrow> if s \<noteq> [] then s else d)"

definition missing :: "string option \<Rightarrow> bool" where
  "missing x = (case x of None \<Rightarrow> True | Some s \<Rightarrow> s = [])"

definition num_or_null :: "int option \<Rightarrow> int option" where
  "num_or_null x = (case x of None \<Rightarrow> None | Some n \<Rightarrow> if n \<noteq> 0 then Some n else None)"

text \<open>
  A Number that holds the result of \<open>parseInt\<close>: \<open>NaN\<close>, an integer that a double
  represents, or one of the two infinities.
\<close>

datatype number = NaN | Num int | Infinite

subsection \<open>The runtime\<close>

text \<open>
  \<open>JSON.stringify\<close>, \<open>JSON.parse\<close> and \<open>crypto.randomUUID\<close> belong to the JavaScript
  runtime, not to the repository: they are parameters of the model. \<open>JSON_parse\<close> is
  \<open>None\<close> where \<open>JSON.parse\<close> throws a SyntaxError; \<open>randomUUID\<close> is the value the one
  call of \<open>crypto.randomUUID()\<close> in a request returns. \<open>rowid_of_text\<close> is the store's
  conversion of a text value that is compared with an INTEGER column (\<open>None\<close>: the text
  is no integer and equals no row id).
\<close>

record runtime =
  JSON_stringify :: "json \<Rightarrow> string"
  JSON_parse :: "string \<Rightarrow> json option"
  randomUUID :: string
  rowid_of_text :: "string \<Rightarrow> int option"

subsection \<open>The store (schema.sql)\<close>

text \<open>
  One record per table row; the \<open>created_at\<close>/\<open>updated_at\<close> columns depend on the clock
  of the store and are left out. \<open>users_seq\<close> and \<open>lists_seq\<close> are the AUTOINCREMENT
  counters of SQLite.
\<close>

record user_row =
  u_id :: int
  u_name :: string
  u_email :: string
  u_university :: string
  u_password :: string
  u_token :: "string option"

record list_row =
  l_id :: int
  l_name :: string
  l_user_id :: int

record report_row =
  r_id :: string
  r_user_id :: int
  r_list_id :: "int option"
  r_info_general :: "string option"
  r_configuracion :: "string option"
  r_niveles_desempeno :: "string option"
  r_criterios :: "string option"
  r_feedback :: "string option"
  r_resultados :: "string option"

record db =
  tbl_users :: "user_row list"
  tbl_lists :: "list_row list"
  tbl_reports :: "report_row list"
  users_seq :: int
  lists_seq :: int

definition empty_db :: db where
  "empty_db = \<lparr>tbl_users = [], tbl_lists = [], tbl_reports = [], users_seq = 0, lists_seq = 0\<rparr>"

subsection \<open>Requests and responses\<close>

text \<open>
  The body after \<open>await request.json()\<close>, seen through the members the handlers
  destructure. \<open>None\<close> is an absent member (\<open>undefined\<close>). The scalar members are typed as
  the columns they are bound to.
\<close>

record body =
  b_id :: "string option"
  b_name :: "string option"
  b_email :: "string option"
  b_university :: "string option"
  b_password :: "string option"
  b_title :: "string option"
  b_student :: "string option"
  b_listaId :: "int option"
  b_infoGeneral :: "json option"
  b_configuracion :: "json option"
  b_nivelesDesempeno :: "json option"
  b_criterios :: "json option"
  b_feedback :: "json option"
  b_resultados :: "json option"

definition empty_body :: body where
  "empty_body = \<lparr>b_id = None, b_name = None, b_email = None, b_university = None,
     b_password = None, b_title = None, b_student = None, b_listaId = None,
     b_infoGeneral = None, b_configuracion = None, b_nivelesDesempeno = None,
     b_criterios = None, b_feedback = None, b_resultados = None\<rparr>"

text \<open>
  A request: \<open>json_body\<close> is \<open>None\<close> when \<open>request.json()\<close> rejects (the body is not JSON,
  or is \<open>null\<close>, which cannot be destructured).
\<close>

record request =
  req_method :: string
  pathname :: string
  authorization :: "string option"
  json_body :: "body option"

record pub_user =
  pu_id :: int
  pu_name :: string
  pu_email :: string
  pu_university :: string

text \<open>\<open>{...report, infoGeneral: JSON.parse(...), ...}\<close>\<close>

record parsed_report =
  row :: report_row
  infoGeneral :: json
  configuracion :: json
  nivelesDesempeno :: json
  criterios :: json
  feedback :: json
  resultados :: json

text \<open>
  The response bodies the handlers build. \<open>Thrown\<close> is the body \<open>{message: err.message}\<close>
  of a caught exception, whose text the runtime or the store decides. \<open>Uncaught\<close> is the
  platform's error page for an exception that no handler catches.
\<close>

datatype payload =
    NoBody
  | Message string
  | Thrown
  | Uncaught
  | AuthOk pub_user string
  | UserInfo pub_user
  | ReportList "parsed_report list"
  | ReportDoc parsed_report
  | ReportId "string option"
  | ListRows "list_row list"
  | ListRow list_row
  | ListCreated int string
  | ListDeleted string int "nat option"
  | ListUpdated string number string

record response =
  status :: nat
  payload :: payload

section \<open>Utilities\<close>

definition jsonResponse :: "payload \<Rightarrow> nat \<Rightarrow> response" where
  "jsonResponse data st = \<lparr>status = st, payload = data\<rparr>"

definition errorResponse :: "string \<Rightarrow> nat \<Rightarrow> response" where
  "errorResponse message st = \<lparr>status = st, payload = Message message\<rparr>"

text \<open>\<open>errorResponse(err.message, 500)\<close> in a \<open>catch\<close> block.\<close>

definition thrownResponse :: "nat \<Rightarrow> response" where
  "thrownResponse st = \<lparr>status = st, payload = Thrown\<rparr>"

text \<open>\<open>new Response(null, { headers: corsHeaders })\<close>: the status defaults to 200.\<close>

definition preflightResponse :: response where
  "preflightResponse = \<lparr>status = 200, payload = NoBody\<rparr>"

definition startsWith :: "string \<Rightarrow> string \<Rightarrow> bool" where
  "startsWith s p = prefix p s"

text \<open>\<open>s.replace(pat, rep)\<close> with a string pattern replaces the first occurrence only.\<close>

fun replace_first :: "string \<Rightarrow> string \<Rightarrow> string \<Rightarrow> string" where
  "replace_first pat rep [] = (if pat = [] then rep else [])"
| "replace_first pat rep (x # xs) =
     (if prefix pat (x # xs) then rep @ drop (length pat) (x # xs)
      else x # replace_first pat rep xs)"

text \<open>\<open>s.split(c)\<close>: the pieces between the separators, empty pieces included.\<close>

fun split :: "char \<Rightarrow> string \<Rightarrow> string list" where
  "split c [] = [[]]"
| "split c (x # xs) =
     (if x = c then [] # split c xs
      else (case split c xs of [] \<Rightarrow> [[x]] | w # ws \<Rightarrow> (x # w) # ws))"

text \<open>\<open>path.split('/').filter(p => p)\<close>\<close>

definition path_parts :: "string \<Rightarrow> string list" where
  "path_parts path = filter (\<lambda>p. p \<noteq> []) (split CHR ''/'' path)"

definition extractToken :: "request \<Rightarrow> string option" where
  "extractToken req =
     (case authorization req of
        None \<Rightarrow> None
      | Some authHeader \<Rightarrow>
          if authHeader = [] \<or> \<not> startsWith authHeader ''Bearer '' then None
          else Some (drop 7 authHeader))"

text \<open>\<open>new URL(request.url).pathname.replace('/api', '')\<close>\<close>

definition route_path :: "request \<Rightarrow> string" where
  "route_path req = replace_first ''/api'' [] (pathname req)"

section \<open>The statements sent to the store\<close>

text \<open>
  One function per prepared statement of the handlers, over the tables of schema.sql.
  A statement that violates a constraint of the schema (PRIMARY KEY, UNIQUE, FOREIGN KEY)
  makes the \<open>await\<close> throw: the result is \<open>None\<close>. \<open>first()\<close> is the first matching row,
  \<open>all()\<close> the matching rows, \<open>run()\<close> the new store with the \<open>meta\<close> object of its
  result.
\<close>

text \<open>
  The store is Cloudflare D1 (readme.md). The \<open>meta\<close> object of a D1 result counts the rows
  a statement has written in its member \<open>changes\<close> (beside \<open>last_row_id\<close>, \<open>duration\<close>,
  \<open>rows_read\<close>, \<open>rows_written\<close> and others); it has no member \<open>rows_affected\<close>, so the
  expression \<open>result.meta.rows_affected\<close> of the handlers is \<open>undefined\<close> (\<open>None\<close>) whatever the
  statement did. \<open>meta.last_row_id\<close> is the first component of the result of an INSERT.
\<close>

record meta =
  changes :: nat

definition rows_affected :: "meta \<Rightarrow> nat option" where
  "rows_affected m = None"

definition next_rowid :: "int \<Rightarrow> int list \<Rightarrow> int" where
  "next_rowid seq ids = fold max ids seq + 1"

text \<open>\<open>SELECT * FROM users WHERE email = ?\<close>\<close>

definition select_user_by_email :: "db \<Rightarrow> string \<Rightarrow> user_row option" where
  "select_user_by_email d email = find (\<lambda>u. u_email u = email) (tbl_users d)"

text \<open>\<open>SELECT * FROM users WHERE email = ? AND password = ?\<close>\<close>

definition select_user_by_login :: "db \<Rightarrow> string \<Rightarrow> string \<Rightarrow> user_row option" where
  "select_user_by_login d email password =
     find (\<lambda>u. u_email u = email \<and> u_password u = password) (tbl_users d)"

text \<open>\<open>SELECT * FROM users WHERE token = ?\<close>\<close>

definition select_user_by_token :: "db \<Rightarrow> string \<Rightarrow> user_row option" where
  "select_user_by_token d token = find (\<lambda>u. u_token u = Some token) (tbl_users d)"

text \<open>\<open>INSERT INTO users (name, email, university, password, token) VALUES (?, ?, ?, ?, ?)\<close>\<close>

definition insert_user ::
  "db \<Rightarrow> string \<Rightarrow> string \<Rightarrow> string \<Rightarrow> string \<Rightarrow> string \<Rightarrow> (int \<times> db) option" where
  "insert_user d name email university password token =
     (if list_ex (\<lambda>u. u_email u = email \<or> u_token u = Some token) (tbl_users d) then None
      else
        let i = next_rowid (users_seq d) (map u_id (tbl_users d)) in
        Some (i, d\<lparr>tbl_users := tbl_users d @
                 [\<lparr>u_id = i, u_name = name, u_email = email, u_university = university,
                   u_password = password, u_token = Some token\<rparr>],
               users_seq := i\<rparr>))"

text \<open>\<open>UPDATE users SET token = ? WHERE id = ?\<close>\<close>

definition update_user_token :: "db \<Rightarrow> string \<Rightarrow> int \<Rightarrow> db option" where
  "update_user_token d token uid =
     (if list_ex (\<lambda>u. u_id u = uid) (tbl_users d) \<and>
         list_ex (\<lambda>u. u_id u \<noteq> uid \<and> u_token u = Some token) (tbl_users d)
      then None
      else Some (d\<lparr>tbl_users :=
                  map (\<lambda>u. if u_id u = uid then u\<lparr>u_token := Some token\<rparr> else u) (tbl_users d)\<rparr>))"

text \<open>\<open>SELECT * FROM reports WHERE user_id = ?\<close>\<close>

definition select_reports_by_user :: "db \<Rightarrow> int \<Rightarrow> report_row list" where
  "select_reports_by_user d uid = filter (\<lambda>r. r_user_id r = uid) (tbl_reports d)"

text \<open>\<open>SELECT * FROM reports WHERE id = ? AND user_id = ?\<close>\<close>

definition select_report :: "db \<Rightarrow> string \<Rightarrow> int \<Rightarrow> report_row option" where
  "select_report d rid uid = find (\<lambda>r. r_id r = rid \<and> r_user_id r = uid) (tbl_reports d)"

text \<open>The FOREIGN KEY of \<open>reports.list_id\<close>: NULL, or the id of a row of \<open>lists\<close>.\<close>

definition list_id_ok :: "db \<Rightarrow> int option \<Rightarrow> bool" where
  "list_id_ok d lid = (case lid of None \<Rightarrow> True | Some l \<Rightarrow> list_ex (\<lambda>x. l_id x = l) (tbl_lists d))"

text \<open>\<open>INSERT INTO reports (id, user_id, list_id, info_general, ...) VALUES (?, ...)\<close>\<close>

definition insert_report :: "db \<Rightarrow> report_row \<Rightarrow> db option" where
  "insert_report d r =
     (if list_ex (\<lambda>x. r_id x = r_id r) (tbl_reports d) then None
      else if \<not> list_ex (\<lambda>u. u_id u = r_user_id r) (tbl_users d) then None
      else if \<not> list_id_ok d (r_list_id r) then None
      else Some (d\<lparr>tbl_reports := tbl_reports d @ [r]\<rparr>))"

text \<open>
  \<open>UPDATE reports SET info_general = ?, ..., list_id = ? WHERE id = ? AND user_id = ?\<close>:
  the argument \<open>v\<close> carries the seven new column values.
\<close>

definition update_report :: "db \<Rightarrow> report_row \<Rightarrow> string \<Rightarrow> int \<Rightarrow> (meta \<times> db) option" where
  "update_report d v rid uid =
     (let hit = (\<lambda>r. r_id r = rid \<and> r_user_id r = uid);
          n = length (filter hit (tbl_reports d))
      in if n \<noteq> 0 \<and> \<not> list_id_ok d (r_list_id v) then None
         else Some (\<lparr>changes = n\<rparr>, d\<lparr>tbl_reports :=
                map (\<lambda>r. if hit r
                          then r\<lparr>r_info_general := r_info_general v,
                                 r_configuracion := r_configuracion v,
                                 r_niveles_desempeno := r_niveles_desempeno v,
                                 r_criterios := r_criterios v,
                                 r_feedback := r_feedback v,
                                 r_resultados := r_resultados v,
                                 r_list_id := r_list_id v\<rparr>
                          else r) (tbl_reports d)\<rparr>))"

text \<open>\<open>DELETE FROM reports WHERE id = ? AND user_id = ?\<close>\<close>

definition delete_report :: "db \<Rightarrow> string \<Rightarrow> int \<Rightarrow> meta \<times> db" where
  "delete_report d rid uid =
     (let hit = (\<lambda>r. r_id r = rid \<and> r_user_id r = uid)
      in (\<lparr>changes = length (filter hit (tbl_reports d))\<rparr>,
          d\<lparr>tbl_reports := filter (\<lambda>r. \<not> hit r) (tbl_reports d)\<rparr>))"

text \<open>
  \<open>json_extract(info_general, '$.key')\<close>: NULL (\<open>Some None\<close>) on a NULL column, on a value
  that is not an object and on an absent key; an error (\<open>None\<close>) on malformed text.
\<close>

definition json_extract :: "runtime \<Rightarrow> string option \<Rightarrow> string \<Rightarrow> json option option" where
  "json_extract rt col key =
     (case col of
        None \<Rightarrow> Some None
      | Some text \<Rightarrow>
          (case JSON_parse rt text of
             None \<Rightarrow> None
           | Some (JObj kvs) \<Rightarrow> Some (map_of kvs key)
           | Some _ \<Rightarrow> Some None))"

text \<open>
  \<open>SELECT * FROM reports WHERE user_id = ? AND json_extract(info_general,
  '$.tituloEvaluacion') = ? AND json_extract(info_general, '$.nombreEstudiante') = ?\<close>,
  evaluated on the rows of the user.
\<close>

definition search_hit :: "runtime \<Rightarrow> string \<Rightarrow> string \<Rightarrow> report_row \<Rightarrow> bool option" where
  "search_hit rt title student r =
     do {
       t \<leftarrow> json_extract rt (r_info_general r) ''tituloEvaluacion'';
       s \<leftarrow> json_extract rt (r_info_general r) ''nombreEstudiante'';
       Some (t = Some (JStr title) \<and> s = Some (JStr student))
     }"

definition select_reports_search ::
  "runtime \<Rightarrow> db \<Rightarrow> int \<Rightarrow> string \<Rightarrow> string \<Rightarrow> report_row list option" where
  "select_reports_search rt d uid title student =
     (let mine = select_reports_by_user d uid in
      map_option (\<lambda>hits. map fst (filter snd (zip mine hits)))
        (those (map (search_hit rt title student) mine)))"

text \<open>\<open>SELECT * FROM lists WHERE user_id = ?\<close>\<close>

definition select_lists_by_user :: "db \<Rightarrow> int \<Rightarrow> list_row list" where
  "select_lists_by_user d uid = filter (\<lambda>l. l_user_id l = uid) (tbl_lists d)"

text \<open>\<open>SELECT * FROM lists WHERE id = ?\<close>\<close>

definition select_list_by_id :: "db \<Rightarrow> int \<Rightarrow> list_row option" where
  "select_list_by_id d lid = find (\<lambda>l. l_id l = lid) (tbl_lists d)"

text \<open>\<open>SELECT * FROM lists WHERE id = ? AND user_id = ?\<close>\<close>

definition select_list :: "db \<Rightarrow> int \<Rightarrow> int \<Rightarrow> list_row option" where
  "select_list d lid uid = find (\<lambda>l. l_id l = lid \<and> l_user_id l = uid) (tbl_lists d)"

text \<open>\<open>INSERT INTO lists (name, user_id) VALUES (?, ?)\<close>\<close>

definition insert_list :: "db \<Rightarrow> string \<Rightarrow> int \<Rightarrow> (int \<times> db) option" where
  "insert_list d name uid =
     (if \<not> list_ex (\<lambda>u. u_id u = uid) (tbl_users d) then None
      else
        let i = next_rowid (lists_seq d) (map l_id (tbl_lists d)) in
        Some (i, d\<lparr>tbl_lists := tbl_lists d @ [\<lparr>l_id = i, l_name = name, l_user_id = uid\<rparr>],
               lists_seq := i\<rparr>))"

text \<open>
  \<open>DELETE FROM lists WHERE id = ? AND user_id = ?\<close>; the reports of a deleted list keep
  their rows and lose the reference (\<open>ON DELETE SET NULL\<close>).
\<close>

definition delete_list :: "db \<Rightarrow> int \<Rightarrow> int \<Rightarrow> meta \<times> db" where
  "delete_list d lid uid =
     (let hit = (\<lambda>l. l_id l = lid \<and> l_user_id l = uid);
          n = length (filter hit (tbl_lists d))
      in (\<lparr>changes = n\<rparr>,
          if n = 0 then d
             else d\<lparr>tbl_lists := filter (\<lambda>l. \<not> hit l) (tbl_lists d),
                    tbl_reports := map (\<lambda>r. if r_list_id r = Some lid
                                             then r\<lparr>r_list_id := None\<rparr> else r)
                                       (tbl_reports d)\<rparr>))"

text \<open>\<open>UPDATE lists SET name = ? WHERE id = ? AND user_id = ?\<close>\<close>

definition update_list_name :: "db \<Rightarrow> string \<Rightarrow> int \<Rightarrow> int \<Rightarrow> meta \<times> db" where
  "update_list_name d name lid uid =
     (let hit = (\<lambda>l. l_id l = lid \<and> l_user_id l = uid)
      in (\<lparr>changes = length (filter hit (tbl_lists d))\<rparr>,
          d\<lparr>tbl_lists := map (\<lambda>l. if hit l then l\<lparr>l_name := name\<rparr> else l) (tbl_lists d)\<rparr>))"

section \<open>Handlers (functions/api/[[route]].js)\<close>

subsection \<open>Authentication\<close>

definition public_user :: "user_row \<Rightarrow> pub_user" where
  "public_user u = \<lparr>pu_id = u_id u, pu_name = u_name u, pu_email = u_email u,
     pu_university = u_university u\<rparr>"

definition findUserByToken :: "string \<Rightarrow> db \<Rightarrow> pub_user option" where
  "findUserByToken token d = map_option public_user (select_user_by_token d token)"

definition registerUser :: "runtime \<Rightarrow> db \<Rightarrow> request \<Rightarrow> response \<times> db" where
  "registerUser rt d req =
     (case json_body req of
        None \<Rightarrow> (thrownResponse 500, d)
      | Some b \<Rightarrow>
          if missing (b_name b) \<or> missing (b_email b) \<or> missing (b_university b)
             \<or> missing (b_password b)
          then (errorResponse ''Name, email, university, and password are required.'' 400, d)
          else
            let name = the (b_name b); email = the (b_email b);
                university = the (b_university b); password = the (b_password b)
            in (case select_user_by_email d email of
                  Some existingUser \<Rightarrow> (errorResponse ''Email already registered.'' 409, d)
                | None \<Rightarrow>
                    let token = randomUUID rt in
                    (case insert_user d name email university password token of
                       None \<Rightarrow> (thrownResponse 500, d)
                     | Some (last_row_id, d') \<Rightarrow>
                         (jsonResponse
                            (AuthOk \<lparr>pu_id = last_row_id, pu_name = name, pu_email = email,
                                     pu_university = university\<rparr> token) 201, d'))))"

definition loginUser :: "runtime \<Rightarrow> db \<Rightarrow> request \<Rightarrow> response \<times> db" where
  "loginUser rt d req =
     (case json_body req of
        None \<Rightarrow> (thrownResponse 500, d)
      | Some b \<Rightarrow>
          if missing (b_email b) \<or> missing (b_password b)
          then (errorResponse ''Email and password are required.'' 400, d)
          else
            (case select_user_by_login d (the (b_email b)) (the (b_password b)) of
               None \<Rightarrow> (errorResponse ''Invalid email or password.'' 401, d)
             | Some user \<Rightarrow>
                 let token = randomUUID rt in
                 (case update_user_token d token (u_id user) of
                    None \<Rightarrow> (thrownResponse 500, d)
                  | Some d' \<Rightarrow> (jsonResponse (AuthOk (public_user user) token) 200, d'))))"

definition handleAuth :: "runtime \<Rightarrow> db \<Rightarrow> request \<Rightarrow> string \<Rightarrow> response \<times> db" where
  "handleAuth rt d req path =
     (if path = ''/auth/register'' then
        (if req_method req \<noteq> ''POST'' then (errorResponse ''Method Not Allowed'' 405, d)
         else registerUser rt d req)
      else if path = ''/auth/login'' then
        (if req_method req \<noteq> ''POST'' then (errorResponse ''Method Not Allowed'' 405, d)
         else loginUser rt d req)
      else if path = ''/auth/me'' then
        (if req_method req \<noteq> ''GET'' then (errorResponse ''Method Not Allowed'' 405, d)
         else
           (case extractToken req of
              None \<Rightarrow> (errorResponse ''Authentication required'' 401, d)
            | Some token \<Rightarrow>
                if token = [] then (errorResponse ''Authentication required'' 401, d)
                else
                  (case findUserByToken token d of
                     None \<Rightarrow> (errorResponse ''Invalid token'' 401, d)
                   | Some user \<Rightarrow> (jsonResponse (UserInfo user) 200, d))))
      else (errorResponse ''Not Found'' 404, d))"

subsection \<open>Reports\<close>

text \<open>\<open>JSON.parse(col || dflt)\<close>: a NULL or empty column reads as the default text.\<close>

definition parse_column :: "runtime \<Rightarrow> string option \<Rightarrow> string \<Rightarrow> json option" where
  "parse_column rt col dflt =
     JSON_parse rt (case col of None \<Rightarrow> dflt | Some t \<Rightarrow> if t \<noteq> [] then t else dflt)"

text \<open>The object literal both \<open>getReport\<close> and the \<open>map\<close> of \<open>getReports\<close> build.\<close>

definition parse_report :: "runtime \<Rightarrow> report_row \<Rightarrow> parsed_report option" where
  "parse_report rt r =
     do {
       ig \<leftarrow> parse_column rt (r_info_general r) ''{}'';
       cf \<leftarrow> parse_column rt (r_configuracion r) ''{}'';
       nd \<leftarrow> parse_column rt (r_niveles_desempeno r) ''[]'';
       cr \<leftarrow> parse_column rt (r_criterios r) ''[]'';
       fb \<leftarrow> parse_column rt (r_feedback r) ''{}'';
       rs \<leftarrow> parse_column rt (r_resultados r) ''{}'';
       Some \<lparr>row = r, infoGeneral = ig, configuracion = cf, nivelesDesempeno = nd,
             criterios = cr, feedback = fb, resultados = rs\<rparr>
     }"

definition getReports :: "runtime \<Rightarrow> db \<Rightarrow> int \<Rightarrow> response \<times> db" where
  "getReports rt d userId =
     (case those (map (parse_report rt) (select_reports_by_user d userId)) of
        None \<Rightarrow> (thrownResponse 500, d)
      | Some reports \<Rightarrow> (jsonResponse (ReportList reports) 200, d))"

definition getReport :: "runtime \<Rightarrow> db \<Rightarrow> int \<Rightarrow> string \<Rightarrow> response \<times> db" where
  "getReport rt d userId rid =
     (case select_report d rid userId of
        None \<Rightarrow> (errorResponse ''Report not found'' 404, d)
      | Some report \<Rightarrow>
          (case parse_report rt report of
             None \<Rightarrow> (thrownResponse 500, d)
           | Some parsedReport \<Rightarrow> (jsonResponse (ReportDoc parsedReport) 200, d)))"

text \<open>The six encoded sub-documents and the list reference bound by create and update.\<close>

definition encode_body :: "runtime \<Rightarrow> body \<Rightarrow> string \<Rightarrow> int \<Rightarrow> report_row" where
  "encode_body rt b rid userId =
     \<lparr>r_id = rid, r_user_id = userId, r_list_id = num_or_null (b_listaId b),
      r_info_general = Some (JSON_stringify rt (or_default (b_infoGeneral b) (JObj []))),
      r_configuracion = Some (JSON_stringify rt (or_default (b_configuracion b) (JObj []))),
      r_niveles_desempeno = Some (JSON_stringify rt (or_default (b_nivelesDesempeno b) (JArr []))),
      r_criterios = Some (JSON_stringify rt (or_default (b_criterios b) (JArr []))),
      r_feedback = Some (JSON_stringify rt (or_default (b_feedback b) (JObj []))),
      r_resultados = Some (JSON_stringify rt (or_default (b_resultados b) (JObj [])))\<rparr>"

definition createReport :: "runtime \<Rightarrow> db \<Rightarrow> request \<Rightarrow> int \<Rightarrow> response \<times> db" where
  "createReport rt d req userId =
     (case json_body req of
        None \<Rightarrow> (thrownResponse 500, d)
      | Some b \<Rightarrow>
          (case insert_report d (encode_body rt b (str_or (b_id b) (randomUUID rt)) userId) of
             None \<Rightarrow> (thrownResponse 500, d)
           | Some d' \<Rightarrow> (jsonResponse (ReportId (b_id b)) 201, d')))"

definition updateReport :: "runtime \<Rightarrow> db \<Rightarrow> request \<Rightarrow> int \<Rightarrow> string \<Rightarrow> response \<times> db" where
  "updateReport rt d req userId rid =
     (case json_body req of
        None \<Rightarrow> (thrownResponse 500, d)
      | Some b \<Rightarrow>
          (case update_report d (encode_body rt b rid userId) rid userId of
             None \<Rightarrow> (thrownResponse 500, d)
           | Some (meta, d') \<Rightarrow>
               if rows_affected meta = Some 0
               then (errorResponse ''Report not found or not authorized.'' 404, d')
               else (jsonResponse (Message ''Report updated'') 200, d')))"

definition deleteReport :: "db \<Rightarrow> int \<Rightarrow> string \<Rightarrow> response \<times> db" where
  "deleteReport d userId rid =
     (case delete_report d rid userId of
        (meta, d') \<Rightarrow>
          if rows_affected meta = Some 0
          then (errorResponse ''Report not found or not authorized.'' 404, d')
          else (jsonResponse (Message ''Report deleted'') 200, d'))"

text \<open>Binding an \<open>undefined\<close> title or student makes the statement throw.\<close>

definition searchReports :: "runtime \<Rightarrow> db \<Rightarrow> request \<Rightarrow> int \<Rightarrow> response \<times> db" where
  "searchReports rt d req userId =
     (case json_body req of
        None \<Rightarrow> (thrownResponse 500, d)
      | Some b \<Rightarrow>
          (case (b_title b, b_student b) of
             (Some title, Some student) \<Rightarrow>
               (case select_reports_search rt d userId title student of
                  None \<Rightarrow> (thrownResponse 500, d)
                | Some results \<Rightarrow>
                    (case those (map (parse_report rt) results) of
                       None \<Rightarrow> (thrownResponse 500, d)
                     | Some reports \<Rightarrow> (jsonResponse (ReportList reports) 200, d)))
           | _ \<Rightarrow> (thrownResponse 500, d)))"

subsection \<open>Lists\<close>

definition getLists :: "db \<Rightarrow> int \<Rightarrow> response \<times> db" where
  "getLists d userId = (jsonResponse (ListRows (select_lists_by_user d userId)) 200, d)"

definition createList :: "db \<Rightarrow> request \<Rightarrow> int \<Rightarrow> response \<times> db" where
  "createList d req userId =
     (case json_body req of
        None \<Rightarrow> (thrownResponse 500, d)
      | Some b \<Rightarrow>
          if missing (b_name b) then (errorResponse ''List name is required.'' 400, d)
          else
            (case insert_list d (the (b_name b)) userId of
               None \<Rightarrow> (thrownResponse 500, d)
             | Some (last_row_id, d') \<Rightarrow>
                 (jsonResponse (ListCreated last_row_id (the (b_name b))) 201, d')))"

subsection \<open>The main handler\<close>

text \<open>The block of \<open>onRequest\<close> after the session is resolved (\<open>// Enrutamiento\<close>).\<close>

definition route_request :: "runtime \<Rightarrow> db \<Rightarrow> request \<Rightarrow> string \<Rightarrow> int \<Rightarrow> response \<times> db" where
  "route_request rt d req path userId =
     (if path = ''/reports'' then
        (if req_method req = ''GET'' then getReports rt d userId
         else if req_method req = ''POST'' then createReport rt d req userId
         else (errorResponse ''Method Not Allowed'' 405, d))
      else if startsWith path ''/reports/'' then
        (let parts = path_parts path in
         if length parts \<ge> 2 then
           (let reportId = parts ! 1 in
            if length parts = 2 then
              (if req_method req = ''GET'' then getReport rt d userId reportId
               else if req_method req = ''PUT'' then updateReport rt d req userId reportId
               else if req_method req = ''DELETE'' then deleteReport d userId reportId
               else (errorResponse ''Not Found'' 404, d))
            else if length parts = 3 \<and> parts ! 2 = ''search'' then
              (if req_method req = ''POST'' then searchReports rt d req userId
               else (errorResponse ''Not Found'' 404, d))
            else (errorResponse ''Not Found'' 404, d))
         else (errorResponse ''Not Found'' 404, d))
      else if path = ''/reports/search'' then
        (if req_method req = ''POST'' then searchReports rt d req userId
         else (errorResponse ''Method Not Allowed'' 405, d))
      else if path = ''/lists'' then
        (if req_method req = ''GET'' then getLists d userId
         else if req_method req = ''POST'' then createList d req userId
         else (errorResponse ''Method Not Allowed'' 405, d))
      else (errorResponse ''Not Found'' 404, d))"

definition onRequest :: "runtime \<Rightarrow> db \<Rightarrow> request \<Rightarrow> response \<times> db" where
  "onRequest rt d req =
     (let path = route_path req in
      if req_method req = ''OPTIONS'' then (preflightResponse, d)
      else if startsWith path ''/auth/'' then handleAuth rt d req path
      else
        (case extractToken req of
           None \<Rightarrow> (errorResponse ''Authentication required'' 401, d)
         | Some token \<Rightarrow>
             if token = [] then (errorResponse ''Authentication required'' 401, d)
             else
               (case findUserByToken token d of
                  None \<Rightarrow> (errorResponse ''Invalid token'' 401, d)
                | Some user \<Rightarrow> route_request rt d req path (pu_id user))))"

section \<open>The variant with the complete routing (second Pages function)\<close>

text \<open>
  The second copy of the Pages function has the same utilities and the same handlers for
  authentication, reports and the two collection routes; it reorders the routes of
  \<open>onRequest\<close> and adds the handlers of a single list.
\<close>

subsection \<open>\<open>parseInt\<close>\<close>

text \<open>
  \<open>parseInt(s)\<close> without a radix: leading white space is skipped (the ASCII white space:
  a path segment holds no other), a sign is read, a \<open>0x\<close> prefix selects radix 16, and
  the longest run of digits is read; characters after it are ignored. Without a digit
  the result is \<open>NaN\<close>. The result is a Number: the value of the digits rounded to the
  nearest double (53 significant bits, a tie goes to the even significand), which leaves
  every integer up to \<open>2^53\<close> as it is; a value that rounds to \<open>2^1024\<close> or more is an
  infinity.
\<close>

fun bit_length :: "nat \<Rightarrow> nat" where
  "bit_length n = (if n = 0 then 0 else Suc (bit_length (n div 2)))"

declare bit_length.simps [simp del]

definition round_to_double :: "nat \<Rightarrow> nat" where
  "round_to_double m =
     (let e = bit_length m - 53;
          q = m div 2 ^ e;
          r = m mod 2 ^ e
      in (if 2 ^ e < 2 * r \<or> (2 * r = 2 ^ e \<and> q mod 2 = 1) then q + 1 else q) * 2 ^ e)"

definition is_space :: "char \<Rightarrow> bool" where
  "is_space c = (c \<in> set [CHR 0x09, CHR 0x0A, CHR 0x0B, CHR 0x0C, CHR 0x0D, CHR 0x20])"

definition digit_of :: "char \<Rightarrow> nat option" where
  "digit_of c =
     (let n = (of_char c :: nat) in
      if 48 \<le> n \<and> n \<le> 57 then Some (n - 48)
      else if 97 \<le> n \<and> n \<le> 122 then Some (n - 87)
      else if 65 \<le> n \<and> n \<le> 90 then Some (n - 55)
      else None)"

definition is_digit :: "nat \<Rightarrow> char \<Rightarrow> bool" where
  "is_digit radix c = (case digit_of c of None \<Rightarrow> False | Some v \<Rightarrow> v < radix)"

definition digits_value :: "nat \<Rightarrow> string \<Rightarrow> nat" where
  "digits_value radix ds = foldl (\<lambda>a c. a * radix + the (digit_of c)) 0 ds"

definition parseInt :: "string \<Rightarrow> number" where
  "parseInt str =
     (let s = dropWhile is_space str;
          negative = (s \<noteq> [] \<and> hd s = CHR ''-'');
          s1 = (if s \<noteq> [] \<and> (hd s = CHR ''-'' \<or> hd s = CHR ''+'') then tl s else s);
          hex = (prefix ''0x'' s1 \<or> prefix ''0X'' s1);
          radix = (if hex then 16 else 10);
          s2 = (if hex then drop 2 s1 else s1);
          ds = takeWhile (is_digit radix) s2;
          v = round_to_double (digits_value radix ds)
      in if ds = [] then NaN
         else if 1024 < bit_length v then Infinite
         else Num ((if negative then - 1 else 1) * int v))"

definition isNaN :: "number \<Rightarrow> bool" where
  "isNaN x = (x = NaN)"

text \<open>
  A Number bound to a statement and compared with an INTEGER id: the parameters travel to
  the store as JSON text, in which \<open>NaN\<close> and the infinities are \<open>null\<close>, and NULL equals no
  id (\<open>None\<close>).
\<close>

definition bound_id :: "number \<Rightarrow> int option" where
  "bound_id x = (case x of Num n \<Rightarrow> Some n | _ \<Rightarrow> None)"

subsection \<open>Handlers of a single list\<close>

text \<open>
  \<open>userId\<close> is the integer id of the resolved user, on which \<open>parseInt(userId)\<close> is the
  identity.
\<close>

definition deleteList :: "db \<Rightarrow> int \<Rightarrow> string \<Rightarrow> response \<times> db" where
  "deleteList d userId lid =
     (let listIdNum = parseInt lid in
      if isNaN listIdNum then (errorResponse ''Invalid ID format'' 400, d)
      else
        (case bound_id listIdNum of
           None \<Rightarrow> (errorResponse ''List not found'' 404, d)
         | Some n \<Rightarrow>
             (case select_list_by_id d n of
                None \<Rightarrow> (errorResponse ''List not found'' 404, d)
              | Some existingList \<Rightarrow>
                  if l_user_id existingList \<noteq> userId
                  then (errorResponse ''Not authorized'' 403, d)
                  else
                    (case delete_list d n userId of
                       (meta, d') \<Rightarrow>
                         if rows_affected meta = Some 0
                         then (errorResponse ''Failed to delete list'' 500, d')
                         else (jsonResponse
                                 (ListDeleted ''List deleted successfully'' n (rows_affected meta))
                                 200, d')))))"

text \<open>In \<open>getList\<close> and \<open>updateList\<close> a \<open>NaN\<close> id is bound as it is and matches no row.\<close>

definition getList :: "db \<Rightarrow> int \<Rightarrow> string \<Rightarrow> response \<times> db" where
  "getList d userId lid =
     (case Option.bind (bound_id (parseInt lid)) (\<lambda>n. select_list d n userId) of
        None \<Rightarrow> (errorResponse ''List not found'' 404, d)
      | Some lst \<Rightarrow> (jsonResponse (ListRow lst) 200, d))"

definition updateList :: "db \<Rightarrow> request \<Rightarrow> int \<Rightarrow> string \<Rightarrow> response \<times> db" where
  "updateList d req userId lid =
     (case json_body req of
        None \<Rightarrow> (thrownResponse 500, d)
      | Some b \<Rightarrow>
          if missing (b_name b) then (errorResponse ''List name is required'' 400, d)
          else
            (let listIdNum = parseInt lid in
             case (case bound_id listIdNum of
                     None \<Rightarrow> (\<lparr>changes = 0\<rparr>, d)
                   | Some n \<Rightarrow> update_list_name d (the (b_name b)) n userId) of
               (meta, d') \<Rightarrow>
                 if rows_affected meta = Some 0
                 then (errorResponse ''List not found or not authorized'' 404, d')
                 else (jsonResponse
                         (ListUpdated ''List updated'' listIdNum (the (b_name b))) 200, d')))"

subsection \<open>The main handler of the variant\<close>

definition route_request_full ::
  "runtime \<Rightarrow> db \<Rightarrow> request \<Rightarrow> string \<Rightarrow> int \<Rightarrow> response \<times> db" where
  "route_request_full rt d req path userId =
     (if path = ''/reports'' then
        (if req_method req = ''GET'' then getReports rt d userId
         else if req_method req = ''POST'' then createReport rt d req userId
         else (errorResponse ''Method Not Allowed'' 405, d))
      else if path = ''/reports/search'' then
        (if req_method req = ''POST'' then searchReports rt d req userId
         else (errorResponse ''Method Not Allowed'' 405, d))
      else if startsWith path ''/reports/'' then
        (let parts = path_parts path in
         if length parts \<ge> 2 then
           (let reportId = parts ! 1 in
            if req_method req = ''GET'' then getReport rt d userId reportId
            else if req_method req = ''PUT'' then updateReport rt d req userId reportId
            else if req_method req = ''DELETE'' then deleteReport d userId reportId
            else (errorResponse ''Not Found'' 404, d))
         else (errorResponse ''Not Found'' 404, d))
      else if path = ''/lists'' then
        (if req_method req = ''GET'' then getLists d userId
         else if req_method req = ''POST'' then createList d req userId
         else (errorResponse ''Method Not Allowed'' 405, d))
      else if startsWith path ''/lists/'' then
        (let parts = path_parts path in
         if length parts \<ge> 2 then
           (let listId = parts ! 1 in
            if req_method req = ''DELETE'' then deleteList d userId listId
            else if req_method req = ''GET'' then getList d userId listId
            else if req_method req = ''PUT'' then updateList d req userId listId
            else (errorResponse ''Method Not Allowed'' 405, d))
         else (errorResponse ''Invalid list path'' 404, d))
      else (errorResponse ''Not Found'' 404, d))"

definition onRequest_full :: "runtime \<Rightarrow> db \<Rightarrow> request \<Rightarrow> response \<times> db" where
  "onRequest_full rt d req =
     (let path = route_path req in
      if req_method req = ''OPTIONS'' then (preflightResponse, d)
      else if startsWith path ''/auth/'' then handleAuth rt d req path
      else
        (case extractToken req of
           None \<Rightarrow> (errorResponse ''Authentication required'' 401, d)
         | Some token \<Rightarrow>
             if token = [] then (errorResponse ''Authentication required'' 401, d)
             else
               (case findUserByToken token d of
                  None \<Rightarrow> (errorResponse ''Invalid token'' 401, d)
                | Some user \<Rightarrow> route_request_full rt d req path (pu_id user))))"

section \<open>The Worker copy\<close>

text \<open>
  The Worker (\<open>handleRequest\<close>, behind \<open>export default { fetch }\<close>) has the same utilities
  and the same \<open>handleAuth\<close>, \<open>registerUser\<close>, \<open>loginUser\<close>, \<open>findUserByToken\<close>,
  \<open>deleteReport\<close>, \<open>getLists\<close> and \<open>createList\<close> as the Pages function, up to logging.
  Its report handlers decode and encode without defaults, three of them have no
  \<open>try\<close>/\<open>catch\<close>, and it deletes a list with one statement.
\<close>

text \<open>
  The \<open>fetch\<close> entry returns the promise of \<open>handleRequest\<close> without awaiting it, so its
  \<open>catch\<close> never sees a rejection: an exception that leaves a handler is answered by the
  platform.
\<close>

definition uncaughtResponse :: response where
  "uncaughtResponse = \<lparr>status = 500, payload = Uncaught\<rparr>"

text \<open>\<open>JSON.parse(col)\<close>: a NULL column is read as the text \<open>null\<close>.\<close>

definition parse_column_worker :: "runtime \<Rightarrow> string option \<Rightarrow> json option" where
  "parse_column_worker rt col = (case col of None \<Rightarrow> Some JNull | Some t \<Rightarrow> JSON_parse rt t)"

definition parse_report_worker :: "runtime \<Rightarrow> report_row \<Rightarrow> parsed_report option" where
  "parse_report_worker rt r =
     do {
       ig \<leftarrow> parse_column_worker rt (r_info_general r);
       cf \<leftarrow> parse_column_worker rt (r_configuracion r);
       nd \<leftarrow> parse_column_worker rt (r_niveles_desempeno r);
       cr \<leftarrow> parse_column_worker rt (r_criterios r);
       fb \<leftarrow> parse_column_worker rt (r_feedback r);
       rs \<leftarrow> parse_column_worker rt (r_resultados r);
       Some \<lparr>row = r, infoGeneral = ig, configuracion = cf, nivelesDesempeno = nd,
             criterios = cr, feedback = fb, resultados = rs\<rparr>
     }"

definition getReports_worker :: "runtime \<Rightarrow> db \<Rightarrow> int \<Rightarrow> response \<times> db" where
  "getReports_worker rt d userId =
     (case those (map (parse_report_worker rt) (select_reports_by_user d userId)) of
        None \<Rightarrow> (uncaughtResponse, d)
      | Some reports \<Rightarrow> (jsonResponse (ReportList reports) 200, d))"

definition getReport_worker :: "runtime \<Rightarrow> db \<Rightarrow> int \<Rightarrow> string \<Rightarrow> response \<times> db" where
  "getReport_worker rt d userId rid =
     (case select_report d rid userId of
        None \<Rightarrow> (errorResponse ''Report not found'' 404, d)
      | Some report \<Rightarrow>
          (case parse_report_worker rt report of
             None \<Rightarrow> (uncaughtResponse, d)
           | Some parsedReport \<Rightarrow> (jsonResponse (ReportDoc parsedReport) 200, d)))"

text \<open>
  The INSERT of the Worker's \<open>createReport\<close> names nine columns and has eight
  placeholders: the store rejects it on every call, and the \<open>catch\<close> answers 500.
\<close>

definition createReport_worker :: "db \<Rightarrow> request \<Rightarrow> int \<Rightarrow> response \<times> db" where
  "createReport_worker d req userId = (thrownResponse 500, d)"

text \<open>
  \<open>JSON.stringify(undefined)\<close> is \<open>undefined\<close>, which cannot be bound: an update that
  omits a sub-document throws.
\<close>

definition updateReport_worker ::
  "runtime \<Rightarrow> db \<Rightarrow> request \<Rightarrow> int \<Rightarrow> string \<Rightarrow> response \<times> db" where
  "updateReport_worker rt d req userId rid =
     (case json_body req of
        None \<Rightarrow> (thrownResponse 500, d)
      | Some b \<Rightarrow>
          (case (b_infoGeneral b, b_configuracion b, b_nivelesDesempeno b, b_criterios b,
                 b_feedback b, b_resultados b) of
             (Some ig, Some cf, Some nd, Some cr, Some fb, Some rs) \<Rightarrow>
               (case update_report d
                       \<lparr>r_id = rid, r_user_id = userId, r_list_id = num_or_null (b_listaId b),
                        r_info_general = Some (JSON_stringify rt ig),
                        r_configuracion = Some (JSON_stringify rt cf),
                        r_niveles_desempeno = Some (JSON_stringify rt nd),
                        r_criterios = Some (JSON_stringify rt cr),
                        r_feedback = Some (JSON_stringify rt fb),
                        r_resultados = Some (JSON_stringify rt rs)\<rparr> rid userId of
                  None \<Rightarrow> (thrownResponse 500, d)
                | Some (meta, d') \<Rightarrow>
                    if rows_affected meta = Some 0
                    then (errorResponse ''Report not found or not authorized.'' 404, d')
                    else (jsonResponse (Message ''Report updated'') 200, d'))
           | _ \<Rightarrow> (thrownResponse 500, d)))"

definition searchReports_worker :: "runtime \<Rightarrow> db \<Rightarrow> request \<Rightarrow> int \<Rightarrow> response \<times> db" where
  "searchReports_worker rt d req userId =
     (case json_body req of
        None \<Rightarrow> (thrownResponse 500, d)
      | Some b \<Rightarrow>
          (case (b_title b, b_student b) of
             (Some title, Some student) \<Rightarrow>
               (case select_reports_search rt d userId title student of
                  None \<Rightarrow> (thrownResponse 500, d)
                | Some results \<Rightarrow>
                    (case those (map (parse_report_worker rt) results) of
                       None \<Rightarrow> (thrownResponse 500, d)
                     | Some reports \<Rightarrow> (jsonResponse (ReportList reports) 200, d)))
           | _ \<Rightarrow> (thrownResponse 500, d)))"

text \<open>
  \<open>DELETE FROM lists WHERE id = ? AND user_id = ?\<close> with the path segment bound as text:
  no row is deleted when the list does not exist and when it belongs to another user.
\<close>

definition deleteList_worker :: "runtime \<Rightarrow> db \<Rightarrow> int \<Rightarrow> string \<Rightarrow> response \<times> db" where
  "deleteList_worker rt d userId lid =
     (case (case rowid_of_text rt lid of
              None \<Rightarrow> (\<lparr>changes = 0\<rparr>, d)
            | Some n \<Rightarrow> delete_list d n userId) of
        (meta, d') \<Rightarrow>
          if rows_affected meta = Some 0
          then (errorResponse ''List not found or not authorized.'' 404, d')
          else (jsonResponse (Message ''List deleted'') 200, d'))"

definition route_request_worker ::
  "runtime \<Rightarrow> db \<Rightarrow> request \<Rightarrow> string \<Rightarrow> int \<Rightarrow> response \<times> db" where
  "route_request_worker rt d req path userId =
     (if path = ''/reports'' then
        (if req_method req = ''GET'' then getReports_worker rt d userId
         else if req_method req = ''POST'' then createReport_worker d req userId
         else (errorResponse ''Method Not Allowed'' 405, d))
      else if startsWith path ''/reports/'' then
        (let parts = split CHR ''/'' path in
         if length parts = 3 then
           (let reportId = parts ! 2 in
            if req_method req = ''GET'' then getReport_worker rt d userId reportId
            else if req_method req = ''PUT'' then updateReport_worker rt d req userId reportId
            else if req_method req = ''DELETE'' then deleteReport d userId reportId
            else (errorResponse ''Not Found'' 404, d))
         else (errorResponse ''Not Found'' 404, d))
      else if path = ''/reports/search'' then
        (if req_method req = ''POST'' then searchReports_worker rt d req userId
         else (errorResponse ''Method Not Allowed'' 405, d))
      else if startsWith path ''/lists/'' then
        (let parts = split CHR ''/'' path in
         if length parts = 3 then
           (let listId = parts ! 2 in
            if req_method req = ''DELETE'' then deleteList_worker rt d userId listId
            else (errorResponse ''Not Found'' 404, d))
         else (errorResponse ''Not Found'' 404, d))
      else if path = ''/lists'' then
        (if req_method req = ''GET'' then getLists d userId
         else if req_method req = ''POST'' then createList d req userId
         else (errorResponse ''Method Not Allowed'' 405, d))
      else (errorResponse ''Not Found'' 404, d))"

definition handleRequest :: "runtime \<Rightarrow> db \<Rightarrow> request \<Rightarrow> response \<times> db" where
  "handleRequest rt d req =
     (let path = route_path req in
      if req_method req = ''OPTIONS'' then (preflightResponse, d)
      else if startsWith path ''/auth/'' then handleAuth rt d req path
      else
        (case extractToken req of
           None \<Rightarrow> (errorResponse ''Authentication required'' 401, d)
         | Some token \<Rightarrow>
             if token = [] then (errorResponse ''Authentication required'' 401, d)
             else
               (case findUserByToken token d of
                  None \<Rightarrow> (errorResponse ''Invalid token'' 401, d)
                | Some user \<Rightarrow> route_request_worker rt d req path (pu_id user))))"

section \<open>A reference runtime\<close>

text \<open>
  A concrete runtime for the examples: a serialiser that writes JSON the compact way
  \<open>JSON.stringify\<close> does (escaping the quote and the backslash), and a parser for JSON
  text with optional white space. The general results below do not depend on it.
\<close>

fun show_nat :: "nat \<Rightarrow> string" where
  "show_nat n =
     (if n < 10 then [char_of (48 + n)] else show_nat (n div 10) @ [char_of (48 + n mod 10)])"

declare show_nat.simps [simp del]

fun escape :: "string \<Rightarrow> string" where
  "escape [] = []"
| "escape (c # cs) =
     (if c = CHR 0x22 \<or> c = CHR 0x5C then CHR 0x5C # c # escape cs else c # escape cs)"

definition quote :: "string \<Rightarrow> string" where
  "quote s = CHR 0x22 # escape s @ [CHR 0x22]"

fun commas :: "string list \<Rightarrow> string" where
  "commas [] = []"
| "commas [x] = x"
| "commas (x # y # ys) = x @ CHR '','' # commas (y # ys)"

fun stringify :: "json \<Rightarrow> string" where
  "stringify JNull = ''null''"
| "stringify (JBool b) = (if b then ''true'' else ''false'')"
| "stringify (JNum n) = (if n < 0 then CHR ''-'' # show_nat (nat (- n)) else show_nat (nat n))"
| "stringify (JStr s) = quote s"
| "stringify (JArr xs) = CHR ''['' # commas (map stringify xs) @ '']''"
| "stringify (JObj kvs) =
     CHR ''{'' # commas (map (\<lambda>(k, v). quote k @ CHR '':'' # stringify v) kvs) @ ''}''"

definition skip :: "string \<Rightarrow> string" where
  "skip s = dropWhile (\<lambda>c. c \<in> set [CHR 0x09, CHR 0x0A, CHR 0x0D, CHR 0x20]) s"

fun parse_chars :: "string \<Rightarrow> (string \<times> string) option" where
  "parse_chars [] = None"
| "parse_chars (c # cs) =
     (if c = CHR 0x22 then Some ([], cs)
      else if c = CHR 0x5C then
        (case cs of
           [] \<Rightarrow> None
         | e # es \<Rightarrow>
             if e = CHR 0x22 \<or> e = CHR 0x5C
             then map_option (\<lambda>(s, r). (e # s, r)) (parse_chars es) else None)
      else map_option (\<lambda>(s, r). (c # s, r)) (parse_chars cs))"

definition parse_number :: "string \<Rightarrow> (int \<times> string) option" where
  "parse_number s =
     (let neg = (s \<noteq> [] \<and> hd s = CHR ''-'');
          s1 = (if neg then tl s else s);
          ds = takeWhile (is_digit 10) s1
      in if ds = [] \<or> (length ds > 1 \<and> hd ds = CHR ''0'') then None
         else Some ((if neg then - 1 else 1) * int (digits_value 10 ds), dropWhile (is_digit 10) s1))"

fun parse_value :: "nat \<Rightarrow> string \<Rightarrow> (json \<times> string) option"
  and parse_elements :: "nat \<Rightarrow> string \<Rightarrow> (json list \<times> string) option"
  and parse_members :: "nat \<Rightarrow> string \<Rightarrow> ((string \<times> json) list \<times> string) option"
where
  "parse_value 0 s = None"
| "parse_value (Suc k) s =
     (let t = skip s in
      if prefix ''null'' t then Some (JNull, drop 4 t)
      else if prefix ''true'' t then Some (JBool True, drop 4 t)
      else if prefix ''false'' t then Some (JBool False, drop 5 t)
      else if prefix [CHR 0x22] t then map_option (\<lambda>(x, r). (JStr x, r)) (parse_chars (tl t))
      else if prefix ''['' t then
        (if prefix '']'' (skip (tl t)) then Some (JArr [], tl (skip (tl t)))
         else map_option (\<lambda>(xs, r). (JArr xs, r)) (parse_elements k (tl t)))
      else if prefix ''{'' t then
        (if prefix ''}'' (skip (tl t)) then Some (JObj [], tl (skip (tl t)))
         else map_option (\<lambda>(xs, r). (JObj xs, r)) (parse_members k (tl t)))
      else map_option (\<lambda>(n, r). (JNum n, r)) (parse_number t))"
| "parse_elements 0 s = None"
| "parse_elements (Suc k) s =
     (case parse_value k s of
        None \<Rightarrow> None
      | Some (v, r) \<Rightarrow>
          if prefix '','' (skip r)
          then map_option (\<lambda>(vs, r'). (v # vs, r')) (parse_elements k (tl (skip r)))
          else if prefix '']'' (skip r) then Some ([v], tl (skip r))
          else None)"
| "parse_members 0 s = None"
| "parse_members (Suc k) s =
     (if prefix [CHR 0x22] (skip s) then
        (case parse_chars (tl (skip s)) of
           None \<Rightarrow> None
         | Some (key, r) \<Rightarrow>
             if prefix '':'' (skip r) then
               (case parse_value k (tl (skip r)) of
                  None \<Rightarrow> None
                | Some (v, r') \<Rightarrow>
                    if prefix '','' (skip r')
                    then map_option (\<lambda>(ms, r''). ((key, v) # ms, r''))
                           (parse_members k (tl (skip r')))
                    else if prefix ''}'' (skip r') then Some ([(key, v)], tl (skip r'))
                    else None)
             else None)
      else None)"

declare parse_value.simps [simp del] parse_elements.simps [simp del]
  parse_members.simps [simp del]

definition parse :: "string \<Rightarrow> json option" where
  "parse s =
     (case parse_value (Suc (length s)) s of
        None \<Rightarrow> None
      | Some (v, r) \<Rightarrow> if skip r = [] then Some v else None)"

text \<open>The store reads a row id from a text that is an integer literal.\<close>

definition integer_literal :: "string \<Rightarrow> int option" where
  "integer_literal s = (case parse_number s of Some (n, []) \<Rightarrow> Some n | _ \<Rightarrow> None)"

definition js_runtime :: "string \<Rightarrow> runtime" where
  "js_runtime uuid = \<lparr>JSON_stringify = stringify, JSON_parse = parse, randomUUID = uuid,
     rowid_of_text = integer_literal\<rparr>"

section \<open>Sessions, runs and reachable stores\<close>

text \<open>
  The user a request is resolved to: the two steps of \<open>onRequest\<close> before the routing
  (\<open>extractToken\<close>, then \<open>findUserByToken\<close>).
\<close>

definition caller :: "db \<Rightarrow> request \<Rightarrow> pub_user option" where
  "caller d req =
     (case extractToken req of
        None \<Rightarrow> None
      | Some token \<Rightarrow> if token = [] then None else findUserByToken token d)"

text \<open>
  Serving a sequence of requests, one after the other, with one copy \<open>h\<close> of the main
  handler; each request comes with the runtime it runs in (its \<open>randomUUID\<close>).
\<close>

fun run ::
  "(runtime \<Rightarrow> db \<Rightarrow> request \<Rightarrow> response \<times> db) \<Rightarrow> (runtime \<times> request) list \<Rightarrow> db \<Rightarrow> db" where
  "run h [] d = d"
| "run h ((rt, req) # rest) d = run h rest (snd (h rt d req))"

text \<open>The stores that requests to any of the three copies can produce from the empty store.\<close>

inductive reachable :: "db \<Rightarrow> bool" where
  start: "reachable empty_db"
| step: "reachable d \<Longrightarrow> reachable (snd (onRequest rt d req))"
| step_full: "reachable d \<Longrightarrow> reachable (snd (onRequest_full rt d req))"
| step_worker: "reachable d \<Longrightarrow> reachable (snd (handleRequest rt d req))"

text \<open>
  The ways one request changes the \<open>users\<close> table, where \<open>uuid\<close> is the value of
  \<open>crypto.randomUUID()\<close> in that request: not at all, by one new row (register), or by
  writing the token of one user (login). \<open>users_inv\<close> is what the PRIMARY KEY on \<open>id\<close>
  and the UNIQUE constraint on \<open>token\<close> guarantee.
\<close>

inductive users_step :: "string \<Rightarrow> user_row list \<Rightarrow> user_row list \<Rightarrow> bool" for uuid where
  same: "users_step uuid us us"
| added: "u_id new \<notin> u_id ` set us \<Longrightarrow> u_email new \<notin> u_email ` set us \<Longrightarrow>
          u_token new = Some uuid \<Longrightarrow> Some uuid \<notin> u_token ` set us \<Longrightarrow>
          users_step uuid us (us @ [new])"
| relogin: "\<forall>v\<in>set us. u_id v \<noteq> uid \<longrightarrow> u_token v \<noteq> Some uuid \<Longrightarrow>
          users_step uuid us
            (map (\<lambda>u. if u_id u = uid then u\<lparr>u_token := Some uuid\<rparr> else u) us)"

definition users_inv :: "user_row list \<Rightarrow> bool" where
  "users_inv us =
     (distinct (map u_id us)
      \<and> (\<forall>u\<in>set us. \<forall>v\<in>set us. u_token u = u_token v \<and> u_token u \<noteq> None \<longrightarrow> u = v))"

text \<open>The rows of \<open>reports\<close> that do not belong to a user.\<close>

definition foreign_reports :: "int \<Rightarrow> db \<Rightarrow> report_row list" where
  "foreign_reports uid d = filter (\<lambda>r. r_user_id r \<noteq> uid) (tbl_reports d)"

text \<open>The report rows a response body carries.\<close>

fun returned_rows :: "payload \<Rightarrow> report_row list" where
  "returned_rows (ReportDoc p) = [row p]"
| "returned_rows (ReportList ps) = map row ps"
| "returned_rows _ = []"

text \<open>
  An outcome of a request of user \<open>uid\<close> on store \<open>d\<close> is scoped to that user when the
  report rows of the other users are as before and every returned row is the user's.
\<close>

definition scoped :: "int \<Rightarrow> db \<Rightarrow> response \<times> db \<Rightarrow> bool" where
  "scoped uid d out =
     (foreign_reports uid (snd out) = foreign_reports uid d
      \<and> list_all (\<lambda>r. r_user_id r = uid) (returned_rows (payload (fst out))))"


section \<open>Example data\<close>

definition alice_body :: body where
  "alice_body = empty_body\<lparr>b_name := Some ''Alice'', b_email := Some ''a@x.com'',
     b_university := Some ''UCH'', b_password := Some ''pw-a''\<rparr>"

definition bob_body :: body where
  "bob_body = empty_body\<lparr>b_name := Some ''Bob'', b_email := Some ''b@x.com'',
     b_university := Some ''USACH'', b_password := Some ''pw-b''\<rparr>"

definition register :: "body \<Rightarrow> request" where
  "register b = \<lparr>req_method = ''POST'', pathname = ''/api/auth/register'',
     authorization = None, json_body = Some b\<rparr>"

text \<open>Alice and Bob have registered; their tokens are \<open>tok-a\<close> and \<open>tok-b\<close>.\<close>

definition db_users :: db where
  "db_users = run onRequest [(js_runtime ''tok-a'', register alice_body),
                             (js_runtime ''tok-b'', register bob_body)] empty_db"

text \<open>Alice has created the report \<open>r1\<close> with \<open>configuracion: {scale: 7}\<close>.\<close>

definition r1_body :: body where
  "r1_body = empty_body\<lparr>b_id := Some ''r1'',
     b_configuracion := Some (JObj [(''scale'', JNum 7)])\<rparr>"

definition db_r1 :: db where
  "db_r1 = run onRequest [(js_runtime ''u-1'',
       \<lparr>req_method = ''POST'', pathname = ''/api/reports'',
         authorization = Some ''Bearer tok-a'', json_body = Some r1_body\<rparr>)] db_users"

text \<open>Alice has also created the list ``Section 1'' (with the second copy's routes).\<close>

definition db_list :: db where
  "db_list = run onRequest_full [(js_runtime ''u-2'',
       \<lparr>req_method = ''POST'', pathname = ''/api/lists'',
         authorization = Some ''Bearer tok-a'',
         json_body = Some (empty_body\<lparr>b_name := Some ''Section 1''\<rparr>)\<rparr>)] db_r1"

definition login_alice :: request where
  "login_alice = \<lparr>req_method = ''POST'', pathname = ''/api/auth/login'',
     authorization = None,
     json_body = Some (empty_body\<lparr>b_email := Some ''a@x.com'', b_password := Some ''pw-a''\<rparr>)\<rparr>"

definition alice :: pub_user where
  "alice = \<lparr>pu_id = 1, pu_name = ''Alice'', pu_email = ''a@x.com'', pu_university = ''UCH''\<rparr>"

definition bob :: pub_user where
  "bob = \<lparr>pu_id = 2, pu_name = ''Bob'', pu_email = ''b@x.com'', pu_university = ''USACH''\<rparr>"

text \<open>A request without a body, and one with a body, carrying a bearer token.\<close>

definition bare :: "string \<Rightarrow> string \<Rightarrow> string \<Rightarrow> request" where
  "bare m p tok = \<lparr>req_method = m, pathname = p,
     authorization = Some (''Bearer '' @ tok), json_body = None\<rparr>"

definition with_body :: "string \<Rightarrow> string \<Rightarrow> string \<Rightarrow> body \<Rightarrow> request" where
  "with_body m p tok b = \<lparr>req_method = m, pathname = p,
     authorization = Some (''Bearer '' @ tok), json_body = Some b\<rparr>"

section \<open>Properties\<close>

subsection \<open>Requests without a bearer token\<close>

lemma extractToken_no_bearer:
  assumes "case authorization req of None \<Rightarrow> True | Some h \<Rightarrow> \<not> startsWith h ''Bearer ''"
  shows "extractToken req = None"
  using assms by (auto simp: extractToken_def split: option.splits)

text \<open>
  C4. A request whose method is not OPTIONS and whose path (after the \<open>/api\<close> prefix is
  removed) is not under \<open>/auth/\<close> is answered with 401 ``Authentication required'' when
  the Authorization header is missing or does not start with \<open>Bearer \<close>, whatever the
  path, method and body are; the store is not touched. This holds for the Pages function,
  for its second copy and for the Worker.
\<close>

theorem missing_bearer_yields_401:
  assumes "req_method req \<noteq> ''OPTIONS''"
    and "\<not> startsWith (route_path req) ''/auth/''"
    and "case authorization req of None \<Rightarrow> True | Some h \<Rightarrow> \<not> startsWith h ''Bearer ''"
  shows "onRequest rt d req = (errorResponse ''Authentication required'' 401, d)
       \<and> onRequest_full rt d req = (errorResponse ''Authentication required'' 401, d)
       \<and> handleRequest rt d req = (errorResponse ''Authentication required'' 401, d)
       \<and> status (fst (onRequest rt d req)) = 401
       \<and> status (fst (onRequest_full rt d req)) = 401
       \<and> status (fst (handleRequest rt d req)) = 401"
proof -
  have tok: "extractToken req = None"
    using assms(3) by (rule extractToken_no_bearer)
  have a: "onRequest rt d req = (errorResponse ''Authentication required'' 401, d)"
    using assms(1,2) tok by (simp add: onRequest_def)
  have b: "onRequest_full rt d req = (errorResponse ''Authentication required'' 401, d)"
    using assms(1,2) tok by (simp add: onRequest_full_def)
  have c: "handleRequest rt d req = (errorResponse ''Authentication required'' 401, d)"
    using assms(1,2) tok by (simp add: handleRequest_def)
  show ?thesis
    using a b c by (simp add: errorResponse_def)
qed

theorem missing_bearer_yields_401_witness:
  "status (fst (onRequest (js_runtime ''u-1'') empty_db
      \<lparr>req_method = ''DELETE'', pathname = ''/api/nowhere/at/all'',
        authorization = Some ''Basic dXNlcjpwdw=='', json_body = None\<rparr>)) = 401"
proof -
  let ?req = "\<lparr>req_method = ''DELETE'', pathname = ''/api/nowhere/at/all'',
        authorization = Some ''Basic dXNlcjpwdw=='', json_body = None\<rparr>"
  have h1: "req_method ?req \<noteq> ''OPTIONS''" by simp
  have h2: "\<not> startsWith (route_path ?req) ''/auth/''" by code_simp
  have h3: "case authorization ?req of None \<Rightarrow> True | Some h \<Rightarrow> \<not> startsWith h ''Bearer ''"
    by (simp add: startsWith_def)
  show ?thesis
    using missing_bearer_yields_401 [OF h1 h2 h3, of "js_runtime ''u-1''" empty_db]
    by (simp add: errorResponse_def)
qed

subsection \<open>Paths and routing\<close>

lemma split_no_sep: "c \<notin> set s \<Longrightarrow> split c s = [s]"
  by (induction s) auto

lemma split_sep: "c \<notin> set a \<Longrightarrow> split c (a @ c # b) = a # split c b"
  by (induction a) auto

lemma path_parts_two:
  assumes "a \<noteq> []" "CHR ''/'' \<notin> set a" "seg \<noteq> []" "CHR ''/'' \<notin> set seg"
  shows "path_parts (CHR ''/'' # a @ CHR ''/'' # seg) = [a, seg]"
  using assms by (simp add: path_parts_def split_sep split_no_sep)

lemma path_parts_reports:
  "seg \<noteq> [] \<Longrightarrow> CHR ''/'' \<notin> set seg \<Longrightarrow> path_parts (''/reports/'' @ seg) = [''reports'', seg]"
  using path_parts_two [of "''reports''" seg] by simp

lemma path_parts_lists:
  "seg \<noteq> [] \<Longrightarrow> CHR ''/'' \<notin> set seg \<Longrightarrow> path_parts (''/lists/'' @ seg) = [''lists'', seg]"
  using path_parts_two [of "''lists''" seg] by simp

text \<open>A request that is resolved to a user reaches the routing block with that user's id.\<close>

lemma onRequest_authenticated:
  assumes "req_method req \<noteq> ''OPTIONS''" "\<not> startsWith (route_path req) ''/auth/''"
    and "caller d req = Some u"
  shows "onRequest rt d req = route_request rt d req (route_path req) (pu_id u)"
  using assms by (auto simp: onRequest_def caller_def split: option.splits if_splits)

lemma onRequest_full_authenticated:
  assumes "req_method req \<noteq> ''OPTIONS''" "\<not> startsWith (route_path req) ''/auth/''"
    and "caller d req = Some u"
  shows "onRequest_full rt d req = route_request_full rt d req (route_path req) (pu_id u)"
  using assms by (auto simp: onRequest_full_def caller_def split: option.splits if_splits)

lemma route_full_delete_list:
  assumes "req_method req = ''DELETE''" "seg \<noteq> []" "CHR ''/'' \<notin> set seg"
  shows "route_request_full rt d req (''/lists/'' @ seg) uid = deleteList d uid seg"
  using assms path_parts_lists [of seg]
  by (simp add: route_request_full_def startsWith_def)

lemma onRequest_full_delete_list:
  assumes "req_method req = ''DELETE''"
    and "route_path req = ''/lists/'' @ seg" and "seg \<noteq> []" and "CHR ''/'' \<notin> set seg"
    and "caller d req = Some u"
  shows "onRequest_full rt d req = deleteList d (pu_id u) seg"
proof -
  have "onRequest_full rt d req = route_request_full rt d req (''/lists/'' @ seg) (pu_id u)"
    using onRequest_full_authenticated [of req d u rt] assms(1,2,5)
    by (simp add: startsWith_def)
  also have "\<dots> = deleteList d (pu_id u) seg"
    using assms(1,3,4) by (rule route_full_delete_list)
  finally show ?thesis .
qed

subsection \<open>The Number that \<open>parseInt\<close> reads\<close>

lemma bit_length_le: "bit_length n \<le> k \<longleftrightarrow> n < 2 ^ k"
proof (induction n arbitrary: k rule: bit_length.induct)
  case (1 n)
  show ?case
  proof (cases "n = 0")
    case True
    then show ?thesis by (simp add: bit_length.simps)
  next
    case False
    show ?thesis
    proof (cases k)
      case 0
      then show ?thesis using False by (simp add: bit_length.simps [of n])
    next
      case (Suc j)
      have "bit_length (n div 2) \<le> j \<longleftrightarrow> n div 2 < 2 ^ j"
        using 1 [OF False] .
      moreover have "n div 2 < 2 ^ j \<longleftrightarrow> n < 2 ^ Suc j"
        by auto
      ultimately show ?thesis
        using False Suc by (simp add: bit_length.simps [of n])
    qed
  qed
qed

text \<open>An integer below \<open>2^53\<close> is a double: rounding leaves it as it is.\<close>

lemma round_to_double_small: "m < 2 ^ 53 \<Longrightarrow> round_to_double m = m"
  using bit_length_le [of m 53] by (simp add: round_to_double_def)

text \<open>
  Above \<open>2^53\<close> the digits are rounded: the segment \<open>9007199254740993\<close> is read as the
  Number 9007199254740992, and it is the list with that id that a DELETE looks up.
\<close>

lemma digits_value_example:
  "digits_value 10 ''9007199254740993'' = 9007199254740993"
  by (simp add: digits_value_def digit_of_def)

lemma bit_length_example:
  "bit_length 9007199254740993 = 54" "bit_length 9007199254740992 = 54"
  by (simp_all add: bit_length.simps)

lemma round_to_double_example: "round_to_double 9007199254740993 = 9007199254740992"
  by (simp add: round_to_double_def bit_length_example)

lemma parseInt_rounds: "parseInt ''9007199254740993'' = Num 9007199254740992"
  by (simp add: parseInt_def is_space_def is_digit_def digit_of_def digits_value_example
      round_to_double_example bit_length_example)

text \<open>\<open>parseInt\<close> reads the digits a segment starts with and ignores what follows them.\<close>

lemma parseInt_leading_digits:
  "parseInt ''1abc'' = Num 1 \<and> parseInt ''1.5'' = Num 1 \<and> parseInt ''1e3'' = Num 1
   \<and> parseInt '' -12px'' = Num (- 12) \<and> parseInt ''0x1F'' = Num 31
   \<and> parseInt ''abc'' = NaN \<and> parseInt ''-'' = NaN"
  by code_simp

subsection \<open>Deleting a list\<close>




subsection \<open>Behaviour at concrete requests\<close>

text \<open>What the two copies of the Pages function do with the path \<open>/reports/search\<close>.\<close>

lemma route_request_search:
  "route_request rt d req ''/reports/search'' uid =
     (if req_method req = ''GET'' then getReport rt d uid ''search''
      else if req_method req = ''PUT'' then updateReport rt d req uid ''search''
      else if req_method req = ''DELETE'' then deleteReport d uid ''search''
      else (errorResponse ''Not Found'' 404, d))"
  using path_parts_reports [of "''search''"]
  by (simp add: route_request_def startsWith_def)

lemma route_request_full_search:
  "route_request_full rt d req ''/reports/search'' uid =
     (if req_method req = ''POST'' then searchReports rt d req uid
      else (errorResponse ''Method Not Allowed'' 405, d))"
  by (simp add: route_request_full_def)

text \<open>
  C3. Alice posts to \<open>/reports/search\<close>. The first copy of the Pages function and the
  Worker test the prefix \<open>/reports/\<close> before the literal path, take \<open>search\<close> for a
  report id, find no handler for POST and answer 404; the second copy of the Pages
  function tests the literal path first and answers 200 with the (empty) array of matches.
\<close>

theorem search_route_shadowed:
  "fst (onRequest (js_runtime ''u-3'') db_r1
      \<lparr>req_method = ''POST'', pathname = ''/api/reports/search'',
        authorization = Some ''Bearer tok-a'',
        json_body = Some (empty_body\<lparr>b_title := Some ''Prueba 1'', b_student := Some ''Ana''\<rparr>)\<rparr>)
     = errorResponse ''Not Found'' 404
   \<and> fst (handleRequest (js_runtime ''u-3'') db_r1
      \<lparr>req_method = ''POST'', pathname = ''/api/reports/search'',
        authorization = Some ''Bearer tok-a'',
        json_body = Some (empty_body\<lparr>b_title := Some ''Prueba 1'', b_student := Some ''Ana''\<rparr>)\<rparr>)
     = errorResponse ''Not Found'' 404
   \<and> fst (onRequest_full (js_runtime ''u-3'') db_r1
      \<lparr>req_method = ''POST'', pathname = ''/api/reports/search'',
        authorization = Some ''Bearer tok-a'',
        json_body = Some (empty_body\<lparr>b_title := Some ''Prueba 1'', b_student := Some ''Ana''\<rparr>)\<rparr>)
     = jsonResponse (ReportList []) 200"
  by code_simp

text \<open>
  C9. Alice sends POST to \<open>/reports/r1\<close>, a route that exists for GET, PUT and DELETE:
  all three copies answer 404 ``Not Found'', the same answer as for a path with no route,
  while PATCH on \<open>/reports\<close> is answered with 405.
\<close>

theorem unsupported_verb_on_report_is_404:
  "fst (onRequest (js_runtime ''u-3'') db_r1
      \<lparr>req_method = ''POST'', pathname = ''/api/reports/r1'',
        authorization = Some ''Bearer tok-a'', json_body = Some empty_body\<rparr>)
     = errorResponse ''Not Found'' 404
   \<and> fst (onRequest_full (js_runtime ''u-3'') db_r1
      \<lparr>req_method = ''POST'', pathname = ''/api/reports/r1'',
        authorization = Some ''Bearer tok-a'', json_body = Some empty_body\<rparr>)
     = errorResponse ''Not Found'' 404
   \<and> fst (handleRequest (js_runtime ''u-3'') db_r1
      \<lparr>req_method = ''POST'', pathname = ''/api/reports/r1'',
        authorization = Some ''Bearer tok-a'', json_body = Some empty_body\<rparr>)
     = errorResponse ''Not Found'' 404
   \<and> fst (onRequest (js_runtime ''u-3'') db_r1
      \<lparr>req_method = ''PATCH'', pathname = ''/api/reports'',
        authorization = Some ''Bearer tok-a'', json_body = Some empty_body\<rparr>)
     = errorResponse ''Method Not Allowed'' 405
   \<and> fst (onRequest (js_runtime ''u-3'') db_r1
      \<lparr>req_method = ''GET'', pathname = ''/api/nothing'',
        authorization = Some ''Bearer tok-a'', json_body = None\<rparr>)
     = errorResponse ''Not Found'' 404"
  by code_simp

subsection \<open>Report rows stay with their owner\<close>

lemma find_Some_mem: "find P xs = Some x \<Longrightarrow> x \<in> set xs \<and> P x"
  by (induction xs) (auto split: if_splits)

lemma parse_report_row: "parse_report rt r = Some p \<Longrightarrow> row p = r"
  by (auto simp: parse_report_def split: Option.bind_splits)

lemma those_parse_rows: "those (map (parse_report rt) rs) = Some ps \<Longrightarrow> map row ps = rs"
proof (induction rs arbitrary: ps)
  case Nil
  then show ?case by simp
next
  case (Cons r rs)
  then show ?case
    by (auto simp: parse_report_row split: option.splits)
qed

lemma scoped_unchanged [simp]:
  "scoped uid d (errorResponse m st, d)" "scoped uid d (thrownResponse st, d)"
  by (simp_all add: scoped_def errorResponse_def thrownResponse_def)

lemma scoped_getReports: "scoped uid d (getReports rt d uid)"
proof (cases "those (map (parse_report rt) (select_reports_by_user d uid))")
  case None
  then show ?thesis by (simp add: getReports_def)
next
  case (Some ps)
  then have "map row ps = select_reports_by_user d uid"
    by (rule those_parse_rows)
  then have "list_all (\<lambda>r. r_user_id r = uid) (map row ps)"
    by (simp add: select_reports_by_user_def list_all_iff)
  then show ?thesis
    using Some by (simp add: scoped_def getReports_def jsonResponse_def)
qed

lemma scoped_getReport: "scoped uid d (getReport rt d uid rid)"
  by (auto simp: scoped_def getReport_def jsonResponse_def thrownResponse_def errorResponse_def
      select_report_def dest!: find_Some_mem parse_report_row split: option.splits)

lemma scoped_createReport: "scoped uid d (createReport rt d req uid)"
  by (auto simp: scoped_def createReport_def jsonResponse_def thrownResponse_def
      insert_report_def encode_body_def foreign_reports_def split: option.splits if_splits)

lemma foreign_map_own:
  assumes "\<And>r. r_user_id (f r) = r_user_id r"
  shows "filter (\<lambda>r. r_user_id r \<noteq> uid) (map (\<lambda>r. if r_id r = rid \<and> r_user_id r = uid then f r else r) rs)
   = filter (\<lambda>r. r_user_id r \<noteq> uid) rs"
  using assms by (induction rs) auto

lemma foreign_filter_own:
  "filter (\<lambda>x. (r_id x = rid \<longrightarrow> r_user_id x \<noteq> uid) \<and> r_user_id x \<noteq> uid) rs
   = filter (\<lambda>r. r_user_id r \<noteq> uid) rs"
  by (rule filter_cong) auto

lemma scoped_updateReport: "scoped uid d (updateReport rt d req uid rid)"
  by (auto simp: scoped_def updateReport_def jsonResponse_def thrownResponse_def errorResponse_def
      update_report_def rows_affected_def foreign_reports_def foreign_map_own Let_def
      split: option.splits if_splits)

lemma scoped_deleteReport: "scoped uid d (deleteReport d uid rid)"
  by (auto simp: scoped_def deleteReport_def jsonResponse_def errorResponse_def
      delete_report_def rows_affected_def foreign_reports_def foreign_filter_own Let_def
      split: if_splits)

lemma search_rows_subset:
  "x \<in> set (map fst (filter snd (zip xs hits))) \<Longrightarrow> x \<in> set xs"
  by (auto dest: set_zip_leftD)

lemma scoped_searchReports: "scoped uid d (searchReports rt d req uid)"
proof -
  have "list_all (\<lambda>r. r_user_id r = uid) (map row ps)"
    if "select_reports_search rt d uid title student = Some results"
      and "those (map (parse_report rt) results) = Some ps" for title student results ps
  proof -
    have "set results \<subseteq> set (select_reports_by_user d uid)"
      using that(1) search_rows_subset [of _ "select_reports_by_user d uid"]
      by (fastforce simp: select_reports_search_def Let_def)
    moreover have "map row ps = results"
      using that(2) by (rule those_parse_rows)
    ultimately show ?thesis
      by (auto simp: list_all_iff select_reports_by_user_def)
  qed
  then show ?thesis
    by (auto simp: scoped_def searchReports_def jsonResponse_def thrownResponse_def
        split: option.splits)
qed

lemma scoped_getLists: "scoped uid d (getLists d uid)"
  by (simp add: scoped_def getLists_def jsonResponse_def)

lemma scoped_createList: "scoped uid d (createList d req uid)"
  by (auto simp: scoped_def createList_def jsonResponse_def thrownResponse_def errorResponse_def
      insert_list_def foreign_reports_def Let_def split: option.splits if_splits)

lemma scoped_route_request: "scoped uid d (route_request rt d req path uid)"
  by (simp add: route_request_def Let_def scoped_getReports scoped_getReport
      scoped_createReport scoped_updateReport scoped_deleteReport scoped_searchReports
      scoped_getLists scoped_createList)


subsection \<open>A report id that belongs to somebody else\<close>

lemma find_None_iff_all: "find P xs = None \<longleftrightarrow> (\<forall>x\<in>set xs. \<not> P x)"
  by (induction xs) auto

lemma select_report_foreign:
  assumes "distinct (map r_id (tbl_reports d))"
    and "r \<in> set (tbl_reports d)" and "r_id r = rid" and "r_user_id r \<noteq> uid"
  shows "select_report d rid uid = None"
proof -
  have "x = r" if "x \<in> set (tbl_reports d)" and "r_id x = rid" for x
    using assms(1,2,3) that by (metis distinct_map inj_onD)
  then show ?thesis
    using assms(4) by (auto simp: select_report_def find_None_iff_all)
qed

lemma select_report_None_filter:
  assumes "select_report d rid uid = None"
  shows "filter (\<lambda>r. r_id r = rid \<and> r_user_id r = uid) (tbl_reports d) = []"
    and "filter (\<lambda>r. \<not> (r_id r = rid \<and> r_user_id r = uid)) (tbl_reports d) = tbl_reports d"
    and "map (\<lambda>r. if r_id r = rid \<and> r_user_id r = uid then f r else r) (tbl_reports d)
         = tbl_reports d"
proof -
  have none: "\<forall>x\<in>set (tbl_reports d). \<not> (r_id x = rid \<and> r_user_id x = uid)"
    using assms by (simp add: select_report_def find_None_iff_all)
  show "filter (\<lambda>r. r_id r = rid \<and> r_user_id r = uid) (tbl_reports d) = []"
    using none by (simp add: filter_empty_conv)
  show "filter (\<lambda>r. \<not> (r_id r = rid \<and> r_user_id r = uid)) (tbl_reports d) = tbl_reports d"
    using none by (simp add: filter_id_conv)
  show "map (\<lambda>r. if r_id r = rid \<and> r_user_id r = uid then f r else r) (tbl_reports d)
         = tbl_reports d"
    using none by (intro map_idI) auto
qed

lemma getReport_none:
  "select_report d rid uid = None \<Longrightarrow>
   getReport rt d uid rid = (errorResponse ''Report not found'' 404, d)"
  by (simp add: getReport_def)

text \<open>
  The test \<open>result.meta.rows_affected === 0\<close> compares \<open>undefined\<close> with 0: it never holds,
  and the 404 of \<open>deleteReport\<close> and \<open>updateReport\<close> is never sent.
\<close>

lemma deleteReport_answer:
  "fst (deleteReport d uid rid) = jsonResponse (Message ''Report deleted'') 200"
  by (simp add: deleteReport_def delete_report_def rows_affected_def Let_def)

lemma deleteReport_none:
  assumes "select_report d rid uid = None"
  shows "deleteReport d uid rid = (jsonResponse (Message ''Report deleted'') 200, d)"
  using select_report_None_filter(1,2) [OF assms]
  by (simp add: deleteReport_def delete_report_def rows_affected_def Let_def)

lemma updateReport_none:
  assumes "select_report d rid uid = None"
  shows "updateReport rt d req uid rid =
         (if json_body req = None then thrownResponse 500
          else jsonResponse (Message ''Report updated'') 200, d)"
  using select_report_None_filter(1) [OF assms] select_report_None_filter(3) [OF assms]
  by (auto simp: updateReport_def update_report_def rows_affected_def Let_def
      split: option.splits)

lemma route_report_id:
  assumes "rid \<noteq> []" "CHR ''/'' \<notin> set rid"
  shows "route_request rt d req (''/reports/'' @ rid) uid =
         (if req_method req = ''GET'' then getReport rt d uid rid
          else if req_method req = ''PUT'' then updateReport rt d req uid rid
          else if req_method req = ''DELETE'' then deleteReport d uid rid
          else (errorResponse ''Not Found'' 404, d))"
  using path_parts_reports [OF assms]
  by (simp add: route_request_def startsWith_def)

text \<open>
  For every request that \<open>onRequest\<close> resolves to a user: the report rows of the other
  users are the same after the request, and every report row in the response belongs to
  the caller. On \<open>/reports/{id}\<close> with an id whose row belongs to a different user the
  store is unchanged; a GET is answered with 404, a PUT whose body \<open>request.json()\<close> rejects
  with 500, and a DELETE and a PUT with a body are answered with 200 as if they had
  succeeded.
\<close>

lemma foreign_report_request:
  assumes "req_method req \<noteq> ''OPTIONS''"
    and "\<not> startsWith (route_path req) ''/auth/''"
    and "caller d req = Some u"
  shows "foreign_reports (pu_id u) (snd (onRequest rt d req)) = foreign_reports (pu_id u) d
       \<and> (\<forall>r\<in>set (returned_rows (payload (fst (onRequest rt d req)))). r_user_id r = pu_id u)
       \<and> (\<forall>rid r. route_path req = ''/reports/'' @ rid \<and> rid \<noteq> [] \<and> CHR ''/'' \<notin> set rid
             \<and> distinct (map r_id (tbl_reports d))
             \<and> r \<in> set (tbl_reports d) \<and> r_id r = rid \<and> r_user_id r \<noteq> pu_id u
           \<longrightarrow> snd (onRequest rt d req) = d
             \<and> (req_method req = ''GET'' \<longrightarrow>
                  fst (onRequest rt d req) = errorResponse ''Report not found'' 404)
             \<and> (req_method req = ''DELETE'' \<longrightarrow>
                  fst (onRequest rt d req) = jsonResponse (Message ''Report deleted'') 200)
             \<and> (req_method req = ''PUT'' \<and> json_body req \<noteq> None \<longrightarrow>
                  fst (onRequest rt d req) = jsonResponse (Message ''Report updated'') 200)
             \<and> (req_method req = ''PUT'' \<and> json_body req = None \<longrightarrow>
                  fst (onRequest rt d req) = thrownResponse 500))"
proof -
  have route: "onRequest rt d req = route_request rt d req (route_path req) (pu_id u)"
    using assms by (rule onRequest_authenticated)
  have "scoped (pu_id u) d (onRequest rt d req)"
    unfolding route by (rule scoped_route_request)
  then have general:
    "foreign_reports (pu_id u) (snd (onRequest rt d req)) = foreign_reports (pu_id u) d"
    "\<forall>r\<in>set (returned_rows (payload (fst (onRequest rt d req)))). r_user_id r = pu_id u"
    by (simp_all add: scoped_def list_all_iff)
  have foreign: "snd (onRequest rt d req) = d
             \<and> (req_method req = ''GET'' \<longrightarrow>
                  fst (onRequest rt d req) = errorResponse ''Report not found'' 404)
             \<and> (req_method req = ''DELETE'' \<longrightarrow>
                  fst (onRequest rt d req) = jsonResponse (Message ''Report deleted'') 200)
             \<and> (req_method req = ''PUT'' \<and> json_body req \<noteq> None \<longrightarrow>
                  fst (onRequest rt d req) = jsonResponse (Message ''Report updated'') 200)
             \<and> (req_method req = ''PUT'' \<and> json_body req = None \<longrightarrow>
                  fst (onRequest rt d req) = thrownResponse 500)"
    if path: "route_path req = ''/reports/'' @ rid" "rid \<noteq> []" "CHR ''/'' \<notin> set rid"
      and pk: "distinct (map r_id (tbl_reports d))"
      and other: "r \<in> set (tbl_reports d)" "r_id r = rid" "r_user_id r \<noteq> pu_id u"
    for rid r
  proof -
    have none: "select_report d rid (pu_id u) = None"
      using pk other by (rule select_report_foreign)
    show ?thesis
      unfolding route path(1) route_report_id [OF path(2,3)]
      by (simp add: getReport_none [OF none] deleteReport_none [OF none]
          updateReport_none [OF none])
  qed
  show ?thesis
    using general foreign by blast
qed

text \<open>
  C1. Alice owns the report \<open>r1\<close>; Bob sends a DELETE for it. No row is removed, and the
  answer is 200 ``Report deleted'' instead of 404, in all three copies. A PUT of Bob's
  with a body is answered with 200 ``Report updated'' in the same way; only the GET gets
  its 404. The handlers do filter on the owner and do have the 404 branch, but the branch
  tests \<open>result.meta.rows_affected\<close>, which the store never sets.
\<close>

theorem foreign_report_delete_answers_200:
  "map r_id (tbl_reports db_r1) = [''r1'']
   \<and> map r_user_id (tbl_reports db_r1) = [1]
   \<and> map_option pu_id (caller db_r1 (bare ''DELETE'' ''/api/reports/r1'' ''tok-b'')) = Some 2
   \<and> onRequest (js_runtime ''u-3'') db_r1 (bare ''DELETE'' ''/api/reports/r1'' ''tok-b'')
     = (jsonResponse (Message ''Report deleted'') 200, db_r1)
   \<and> onRequest_full (js_runtime ''u-3'') db_r1 (bare ''DELETE'' ''/api/reports/r1'' ''tok-b'')
     = (jsonResponse (Message ''Report deleted'') 200, db_r1)
   \<and> handleRequest (js_runtime ''u-3'') db_r1 (bare ''DELETE'' ''/api/reports/r1'' ''tok-b'')
     = (jsonResponse (Message ''Report deleted'') 200, db_r1)
   \<and> onRequest (js_runtime ''u-3'') db_r1
        (with_body ''PUT'' ''/api/reports/r1'' ''tok-b'' empty_body)
     = (jsonResponse (Message ''Report updated'') 200, db_r1)
   \<and> onRequest (js_runtime ''u-3'') db_r1 (bare ''GET'' ''/api/reports/r1'' ''tok-b'')
     = (errorResponse ''Report not found'' 404, db_r1)"
  by code_simp

text \<open>
  A PUT of Bob's for the same report with a body that \<open>request.json()\<close> rejects: the body
  is read before the statement is sent, and the answer is 500.
\<close>

lemma foreign_put_without_body_is_500:
  "onRequest (js_runtime ''u-3'') db_r1 (bare ''PUT'' ''/api/reports/r1'' ''tok-b'')
     = (thrownResponse 500, db_r1)"
  by code_simp

subsection \<open>The outcomes of deleting a list\<close>

lemma deleteList_missing:
  assumes "parseInt seg = Num n" "select_list_by_id d n = None"
  shows "deleteList d uid seg = (errorResponse ''List not found'' 404, d)"
  using assms by (simp add: deleteList_def isNaN_def bound_id_def)

lemma deleteList_foreign:
  assumes "parseInt seg = Num n" "select_list_by_id d n = Some l" "l_user_id l \<noteq> uid"
  shows "deleteList d uid seg = (errorResponse ''Not authorized'' 403, d)"
  using assms by (simp add: deleteList_def isNaN_def bound_id_def)

lemma deleteList_own:
  assumes "parseInt seg = Num n" "select_list_by_id d n = Some l" "l_user_id l = uid"
  shows "deleteList d uid seg =
           (jsonResponse (ListDeleted ''List deleted successfully'' n None) 200,
            d\<lparr>tbl_lists := filter (\<lambda>x. \<not> (l_id x = n \<and> l_user_id x = uid)) (tbl_lists d),
              tbl_reports := map (\<lambda>r. if r_list_id r = Some n then r\<lparr>r_list_id := None\<rparr> else r)
                                 (tbl_reports d)\<rparr>)"
proof -
  have mem: "l \<in> set (tbl_lists d)" and lid: "l_id l = n"
    using find_Some_mem [of "\<lambda>x. l_id x = n" "tbl_lists d" l] assms(2)
    by (simp_all add: select_list_by_id_def)
  have "l \<in> set (filter (\<lambda>x. l_id x = n \<and> l_user_id x = uid) (tbl_lists d))"
    using mem lid assms(3) by simp
  then have pos: "length (filter (\<lambda>x. l_id x = n \<and> l_user_id x = uid) (tbl_lists d)) \<noteq> 0"
    by (metis length_0_conv empty_iff list.set(1))
  show ?thesis
    using assms pos
    by (simp add: deleteList_def isNaN_def bound_id_def delete_list_def rows_affected_def Let_def)
qed

text \<open>
  C5 (amended). In the copy of the Pages function that checks the ownership of a list,
  for a DELETE of \<open>/lists/{id}\<close> by a resolved caller where \<open>parseInt\<close> reads the Number
  \<open>n\<close> from the id segment: when no list has the id \<open>n\<close> the answer is 404; when the list
  belongs to another user the answer is 403; in both cases the store is unchanged. When
  the list belongs to the caller the answer is 200 with a message, and the list is removed.
  (An id segment from which \<open>parseInt\<close> reads no integer is answered with 400: see C10.)
\<close>

theorem delete_list_outcomes:
  assumes "req_method req = ''DELETE''"
    and "route_path req = ''/lists/'' @ seg" and "seg \<noteq> []" and "CHR ''/'' \<notin> set seg"
    and "caller d req = Some u"
    and "parseInt seg = Num n"
  shows "(select_list_by_id d n = None \<longrightarrow>
            onRequest_full rt d req = (errorResponse ''List not found'' 404, d))
       \<and> (\<forall>l. select_list_by_id d n = Some l \<and> l_user_id l \<noteq> pu_id u \<longrightarrow>
            onRequest_full rt d req = (errorResponse ''Not authorized'' 403, d))
       \<and> (\<forall>l. select_list_by_id d n = Some l \<and> l_user_id l = pu_id u \<longrightarrow>
            fst (onRequest_full rt d req) =
              jsonResponse (ListDeleted ''List deleted successfully'' n None) 200
            \<and> tbl_lists (snd (onRequest_full rt d req)) =
                filter (\<lambda>x. \<not> (l_id x = n \<and> l_user_id x = pu_id u)) (tbl_lists d)
            \<and> l \<notin> set (tbl_lists (snd (onRequest_full rt d req))))"
proof -
  have route: "onRequest_full rt d req = deleteList d (pu_id u) seg"
    using assms(1-5) by (rule onRequest_full_delete_list)
  have own: "fst (deleteList d (pu_id u) seg) =
              jsonResponse (ListDeleted ''List deleted successfully'' n None) 200
            \<and> tbl_lists (snd (deleteList d (pu_id u) seg)) =
                filter (\<lambda>x. \<not> (l_id x = n \<and> l_user_id x = pu_id u)) (tbl_lists d)
            \<and> l \<notin> set (tbl_lists (snd (deleteList d (pu_id u) seg)))"
    if sel: "select_list_by_id d n = Some l" and mine: "l_user_id l = pu_id u" for l
  proof -
    have lid: "l_id l = n"
      using find_Some_mem [of "\<lambda>x. l_id x = n" "tbl_lists d" l] sel
      by (simp add: select_list_by_id_def)
    have "deleteList d (pu_id u) seg =
           (jsonResponse (ListDeleted ''List deleted successfully'' n None) 200,
            d\<lparr>tbl_lists := filter (\<lambda>x. \<not> (l_id x = n \<and> l_user_id x = pu_id u)) (tbl_lists d),
              tbl_reports := map (\<lambda>r. if r_list_id r = Some n then r\<lparr>r_list_id := None\<rparr> else r)
                                 (tbl_reports d)\<rparr>)"
      using deleteList_own [OF assms(6) sel mine] .
    then show ?thesis
      using lid mine by simp
  qed
  show ?thesis
    unfolding route
    using deleteList_missing [OF assms(6)] deleteList_foreign [OF assms(6)] own
    by blast
qed

theorem delete_list_outcomes_witness:
  "onRequest_full (js_runtime ''u-7'') db_list (bare ''DELETE'' ''/api/lists/2'' ''tok-a'')
     = (errorResponse ''List not found'' 404, db_list)
   \<and> onRequest_full (js_runtime ''u-7'') db_list (bare ''DELETE'' ''/api/lists/1'' ''tok-b'')
     = (errorResponse ''Not authorized'' 403, db_list)
   \<and> status (fst (onRequest_full (js_runtime ''u-7'') db_list
        (bare ''DELETE'' ''/api/lists/1'' ''tok-a''))) = 200
   \<and> tbl_lists (snd (onRequest_full (js_runtime ''u-7'') db_list
        (bare ''DELETE'' ''/api/lists/1'' ''tok-a''))) = []"
proof -
  let ?rt = "js_runtime ''u-7''"
  let ?none = "bare ''DELETE'' ''/api/lists/2'' ''tok-a''"
  let ?other = "bare ''DELETE'' ''/api/lists/1'' ''tok-b''"
  let ?own = "bare ''DELETE'' ''/api/lists/1'' ''tok-a''"
  let ?l = "hd (tbl_lists db_list)"
  have a: "req_method ?none = ''DELETE''" "route_path ?none = ''/lists/'' @ ''2''"
    "''2'' \<noteq> []" "CHR ''/'' \<notin> set ''2''" "caller db_list ?none = Some alice"
    "parseInt ''2'' = Num 2"
    by code_simp+
  have b: "req_method ?other = ''DELETE''" "route_path ?other = ''/lists/'' @ ''1''"
    "''1'' \<noteq> []" "CHR ''/'' \<notin> set ''1''" "caller db_list ?other = Some bob"
    "parseInt ''1'' = Num 1"
    by code_simp+
  have c: "req_method ?own = ''DELETE''" "route_path ?own = ''/lists/'' @ ''1''"
    "''1'' \<noteq> []" "CHR ''/'' \<notin> set ''1''" "caller db_list ?own = Some alice"
    "parseInt ''1'' = Num 1"
    by code_simp+
  have sel: "select_list_by_id db_list 2 = None" "select_list_by_id db_list 1 = Some ?l"
    "l_user_id ?l \<noteq> pu_id bob" "l_user_id ?l = pu_id alice"
    "filter (\<lambda>x. \<not> (l_id x = 1 \<and> l_user_id x = pu_id alice)) (tbl_lists db_list) = []"
    by code_simp+
  have r1: "onRequest_full ?rt db_list ?none = (errorResponse ''List not found'' 404, db_list)"
    using delete_list_outcomes [OF a, of ?rt, THEN conjunct1] sel(1) by (rule mp)
  have r2: "onRequest_full ?rt db_list ?other = (errorResponse ''Not authorized'' 403, db_list)"
    using delete_list_outcomes [OF b, of ?rt, THEN conjunct2, THEN conjunct1, THEN spec, of ?l]
      sel(2,3) by (simp only: simp_thms)
  have r3: "fst (onRequest_full ?rt db_list ?own) =
              jsonResponse (ListDeleted ''List deleted successfully'' 1 None) 200
      \<and> tbl_lists (snd (onRequest_full ?rt db_list ?own)) = []"
    using delete_list_outcomes [OF c, of ?rt, THEN conjunct2, THEN conjunct2, THEN spec, of ?l]
      sel(2,4,5) by (simp only: simp_thms)
  then have r3': "status (fst (onRequest_full ?rt db_list ?own)) = 200
      \<and> tbl_lists (snd (onRequest_full ?rt db_list ?own)) = []"
    by (simp add: jsonResponse_def)
  show ?thesis
    using r1 r2 r3' by (simp only: simp_thms)
qed

text \<open>
  Without the restriction to ids that parse: Alice sends a DELETE for the list \<open>abc\<close>
  and the answer is 400, none of 404, 403 and 200.
\<close>

theorem delete_list_bad_id_is_400:
  "map l_id (tbl_lists db_list) = [1]
   \<and> map_option pu_id (caller db_list (bare ''DELETE'' ''/api/lists/abc'' ''tok-a'')) = Some 1
   \<and> status (fst (onRequest_full (js_runtime ''u-3'') db_list
        (bare ''DELETE'' ''/api/lists/abc'' ''tok-a''))) = 400"
  by code_simp

text \<open>
  The other two copies. The Worker sends one DELETE that names the owner, so the list of
  somebody else stays where it is; its test of \<open>rows_affected\<close> never holds, and it answers
  200 ``List deleted'' whether or not a row was deleted. The first copy of the Pages
  function has no route for a single list, so even the owner gets 404.
\<close>

lemma deleteList_worker_not_owned:
  assumes "\<forall>n. rowid_of_text rt lid = Some n \<longrightarrow> select_list d n uid = None"
  shows "deleteList_worker rt d uid lid = (jsonResponse (Message ''List deleted'') 200, d)"
proof (cases "rowid_of_text rt lid")
  case None
  then show ?thesis by (simp add: deleteList_worker_def rows_affected_def)
next
  case (Some n)
  then have "select_list d n uid = None" using assms by simp
  then have "filter (\<lambda>l. l_id l = n \<and> l_user_id l = uid) (tbl_lists d) = []"
    by (simp add: select_list_def find_None_iff_all filter_empty_conv)
  then show ?thesis
    using Some by (simp add: deleteList_worker_def delete_list_def rows_affected_def Let_def)
qed

lemma pages_function_has_no_list_route:
  "l_user_id (hd (tbl_lists db_list)) = pu_id alice
   \<and> onRequest (js_runtime ''u-3'') db_list (bare ''DELETE'' ''/api/lists/1'' ''tok-a'')
     = (errorResponse ''Not Found'' 404, db_list)
   \<and> handleRequest (js_runtime ''u-3'') db_list (bare ''DELETE'' ''/api/lists/1'' ''tok-b'')
     = (jsonResponse (Message ''List deleted'') 200, db_list)"
  by code_simp

subsection \<open>The reference codec reads back what it writes\<close>

lemma digit_char: "(d::nat) < 10 \<Longrightarrow> digit_of (char_of (48 + d)) = Some d"
  by (simp add: digit_of_def Let_def)

lemma is_digit_char: "(d::nat) < 10 \<Longrightarrow> is_digit 10 (char_of (48 + d))"
  by (simp add: is_digit_def digit_char)

lemma digits_value_snoc:
  "digits_value r (ds @ [c]) = digits_value r ds * r + the (digit_of c)"
  by (simp add: digits_value_def)

lemma show_nat_digits:
  "show_nat n \<noteq> [] \<and> list_all (is_digit 10) (show_nat n) \<and> digits_value 10 (show_nat n) = n
   \<and> (hd (show_nat n) = CHR ''0'' \<longrightarrow> n = 0)"
proof (induction n rule: show_nat.induct)
  case (1 n)
  show ?case
  proof (cases "n < 10")
    case True
    have "n = 0" if "char_of (48 + n) = CHR ''0''"
    proof -
      have "(of_char (char_of (48 + n)) :: nat) = of_char CHR ''0''"
        using that by simp
      then show ?thesis using True by simp
    qed
    then show ?thesis
      using True by (simp add: show_nat.simps [of n] is_digit_char digits_value_def digit_char)
  next
    case False
    have ih: "show_nat (n div 10) \<noteq> []" "list_all (is_digit 10) (show_nat (n div 10))"
      "digits_value 10 (show_nat (n div 10)) = n div 10"
      "hd (show_nat (n div 10)) = CHR ''0'' \<longrightarrow> n div 10 = 0"
      using 1 False by simp_all
    have pos: "n div 10 \<noteq> 0" using False by simp
    show ?thesis
      using False ih pos
      by (simp add: show_nat.simps [of n] is_digit_char digits_value_snoc digit_char)
  qed
qed


lemma show_nat_0: "show_nat 0 = ''0''"
  by code_simp

lemma span_digits:
  assumes "list_all P ds" and "rest = [] \<or> \<not> P (hd rest)"
  shows "takeWhile P (ds @ rest) = ds" and "dropWhile P (ds @ rest) = rest"
proof -
  have all: "\<forall>x\<in>set ds. P x" using assms(1) by (simp add: list_all_iff)
  show "takeWhile P (ds @ rest) = ds"
  proof (cases rest)
    case Nil
    then show ?thesis using all by simp
  next
    case (Cons x l)
    then have "\<not> P x" using assms(2) by simp
    then show ?thesis using all Cons by (simp add: takeWhile_tail)
  qed
  show "dropWhile P (ds @ rest) = rest"
  proof (cases rest)
    case Nil
    then show ?thesis using all by simp
  next
    case (Cons x l)
    then have "\<not> P x" using assms(2) by simp
    then show ?thesis using all Cons by (simp add: dropWhile_append3)
  qed
qed

lemma not_digit_chars [simp]:
  "\<not> is_digit 10 CHR ''-''" "\<not> is_digit 10 CHR '',''" "\<not> is_digit 10 CHR '']''"
  "\<not> is_digit 10 CHR ''}''" "\<not> is_digit 10 CHR ''n''" "\<not> is_digit 10 CHR ''t''"
  "\<not> is_digit 10 CHR ''f''" "\<not> is_digit 10 CHR ''[''" "\<not> is_digit 10 CHR ''{''"
  "\<not> is_digit 10 CHR 0x22" "\<not> is_digit 10 CHR 0x09" "\<not> is_digit 10 CHR 0x0A"
  "\<not> is_digit 10 CHR 0x0D" "\<not> is_digit 10 CHR 0x20"
  by (simp_all add: is_digit_def digit_of_def)

lemma parse_number_nat:
  assumes "rest = [] \<or> \<not> is_digit 10 (hd rest)"
  shows "parse_number (show_nat n @ rest) = Some (int n, rest)"
proof -
  note d = show_nat_digits [of n]
  obtain c cs where cs: "show_nat n = c # cs" using d by (cases "show_nat n") auto
  have c: "is_digit 10 c" using d cs by simp
  then have "c \<noteq> CHR ''-''" by auto
  then have nominus: "hd (show_nat n @ rest) \<noteq> CHR ''-''" using cs by simp
  have one: "\<not> (length (show_nat n) > 1 \<and> hd (show_nat n) = CHR ''0'')"
    using d show_nat_0 by auto
  have tw: "takeWhile (is_digit 10) (show_nat n @ rest) = show_nat n"
    and dw: "dropWhile (is_digit 10) (show_nat n @ rest) = rest"
    using span_digits [of "is_digit 10" "show_nat n" rest] d assms by simp_all
  have "parse_number (show_nat n @ rest) =
      (if show_nat n = [] \<or> (length (show_nat n) > 1 \<and> hd (show_nat n) = CHR ''0'') then None
       else Some (int (digits_value 10 (show_nat n)), rest))"
    using nominus tw dw by (simp add: parse_number_def Let_def)
  then show ?thesis using d one by simp
qed

lemma parse_number_stringify:
  assumes "rest = [] \<or> \<not> is_digit 10 (hd rest)"
  shows "parse_number (stringify (JNum n) @ rest) = Some (n, rest)"
proof (cases "n < 0")
  case False
  then show ?thesis using parse_number_nat [OF assms, of "nat n"] by simp
next
  case True
  note d = show_nat_digits [of "nat (- n)"]
  have nz: "nat (- n) \<noteq> 0" using True by simp
  have one: "\<not> (length (show_nat (nat (- n))) > 1 \<and> hd (show_nat (nat (- n))) = CHR ''0'')"
    using d nz by auto
  have tw: "takeWhile (is_digit 10) (show_nat (nat (- n)) @ rest) = show_nat (nat (- n))"
    and dw: "dropWhile (is_digit 10) (show_nat (nat (- n)) @ rest) = rest"
    using span_digits [of "is_digit 10" "show_nat (nat (- n))" rest] d assms by simp_all
  show ?thesis
    using True d one tw dw by (simp add: parse_number_def Let_def)
qed

lemma parse_chars_escape: "parse_chars (escape s @ CHR 0x22 # rest) = Some (s, rest)"
  by (induction s) auto

lemma skip_Cons: "c \<notin> set [CHR 0x09, CHR 0x0A, CHR 0x0D, CHR 0x20] \<Longrightarrow> skip (c # s) = c # s"
  by (simp add: skip_def)

lemma digit_not_special:
  assumes "is_digit 10 c"
  shows "c \<notin> set [CHR 0x09, CHR 0x0A, CHR 0x0D, CHR 0x20]"
    and "c \<noteq> CHR ''n''" "c \<noteq> CHR ''t''" "c \<noteq> CHR ''f''" "c \<noteq> CHR 0x22"
    and "c \<noteq> CHR ''[''" "c \<noteq> CHR ''{''" "c \<noteq> CHR '']''" "c \<noteq> CHR ''}''"
proof -
  show "c \<notin> set [CHR 0x09, CHR 0x0A, CHR 0x0D, CHR 0x20]"
    using assms not_digit_chars(11-14) by (metis empty_iff empty_set set_ConsD)
  show "c \<noteq> CHR ''n''" "c \<noteq> CHR ''t''" "c \<noteq> CHR ''f''" "c \<noteq> CHR 0x22"
    "c \<noteq> CHR ''[''" "c \<noteq> CHR ''{''" "c \<noteq> CHR '']''" "c \<noteq> CHR ''}''"
    using assms not_digit_chars by metis+
qed


lemma show_nat_Cons: "\<exists>c cs. show_nat n = c # cs \<and> is_digit 10 c"
proof -
  note d = show_nat_digits [of n]
  obtain c cs where "show_nat n = c # cs" using d by (cases "show_nat n") simp_all
  moreover from this have "is_digit 10 c" using d by simp
  ultimately show ?thesis by blast
qed

lemma stringify_head:
  "\<exists>c cs. stringify v = c # cs \<and> c \<notin> set [CHR 0x09, CHR 0x0A, CHR 0x0D, CHR 0x20]
     \<and> c \<noteq> CHR '']'' \<and> c \<noteq> CHR ''}''"
proof (cases v)
  case JNull
  then show ?thesis by simp
next
  case (JBool b)
  then show ?thesis by (cases b) simp_all
next
  case (JNum n)
  show ?thesis
  proof (cases "n < 0")
    case True
    then show ?thesis using JNum by simp
  next
    case False
    obtain c cs where c: "show_nat (nat n) = c # cs" "is_digit 10 c"
      using show_nat_Cons by blast
    have "stringify v = c # cs" using JNum False c(1) by simp
    then show ?thesis using digit_not_special [OF c(2)] by blast
  qed
next
  case (JStr s)
  then show ?thesis by (simp add: quote_def)
next
  case (JArr xs)
  then show ?thesis by simp
next
  case (JObj kvs)
  then show ?thesis by simp
qed


lemma skip_stringify: "skip (stringify v @ rest) = stringify v @ rest"
proof -
  obtain c cs where c: "stringify v = c # cs"
    "c \<notin> set [CHR 0x09, CHR 0x0A, CHR 0x0D, CHR 0x20]"
    using stringify_head [of v] by blast
  show ?thesis
    unfolding c(1) using skip_Cons [OF c(2)] by simp
qed

lemma not_close_stringify:
  "prefix '']'' (stringify v @ rest) = False" "prefix ''}'' (stringify v @ rest) = False"
proof -
  obtain c cs where c: "stringify v = c # cs" "c \<noteq> CHR '']''" "c \<noteq> CHR ''}''"
    using stringify_head [of v] by blast
  show "prefix '']'' (stringify v @ rest) = False" "prefix ''}'' (stringify v @ rest) = False"
    unfolding c(1) using c(2,3) by simp_all
qed

lemma number_head:
  "\<exists>c cs. stringify (JNum n) = c # cs \<and> (is_digit 10 c \<or> c = CHR ''-'')"
proof (cases "n < 0")
  case True
  then show ?thesis by simp
next
  case False
  obtain c cs where "show_nat (nat n) = c # cs" "is_digit 10 c"
    using show_nat_Cons by blast
  then show ?thesis using False by simp
qed

lemma number_not_literal:
  assumes "stringify (JNum n) = c # cs"
  shows "prefix ''null'' (c # cs @ rest) = False" "prefix ''true'' (c # cs @ rest) = False"
    "prefix ''false'' (c # cs @ rest) = False" "prefix [CHR 0x22] (c # cs @ rest) = False"
    "prefix ''['' (c # cs @ rest) = False" "prefix ''{'' (c # cs @ rest) = False"
proof -
  have "is_digit 10 c \<or> c = CHR ''-''"
    using number_head [of n] assms by simp
  then have c': "c \<noteq> CHR ''n''" "c \<noteq> CHR ''t''" "c \<noteq> CHR ''f''" "c \<noteq> CHR 0x22"
    "c \<noteq> CHR ''[''" "c \<noteq> CHR ''{''"
    using digit_not_special [of c] by blast+
  show "prefix ''null'' (c # cs @ rest) = False" using c'(1) by simp
  show "prefix ''true'' (c # cs @ rest) = False" using c'(2) by simp
  show "prefix ''false'' (c # cs @ rest) = False" using c'(3) by simp
  show "prefix [CHR 0x22] (c # cs @ rest) = False" using c'(4) by simp
  show "prefix ''['' (c # cs @ rest) = False" using c'(5) by simp
  show "prefix ''{'' (c # cs @ rest) = False" using c'(6) by simp
qed

lemma parse_value_number:
  assumes "rest = [] \<or> \<not> is_digit 10 (hd rest)"
  shows "parse_value (Suc k) (stringify (JNum n) @ rest) = Some (JNum n, rest)"
proof -
  let ?s = "stringify (JNum n) @ rest"
  obtain c cs where cs: "stringify (JNum n) = c # cs"
    using number_head [of n] by blast
  have sk: "skip ?s = ?s" by (rule skip_stringify)
  have np: "prefix ''null'' ?s = False" "prefix ''true'' ?s = False"
    "prefix ''false'' ?s = False" "prefix [CHR 0x22] ?s = False"
    "prefix ''['' ?s = False" "prefix ''{'' ?s = False"
    unfolding cs append_Cons by (rule number_not_literal [OF cs])+
  have "parse_value (Suc k) ?s = map_option (\<lambda>(n, r). (JNum n, r)) (parse_number ?s)"
    by (simp only: parse_value.simps Let_def sk np if_False)
  also have "\<dots> = Some (JNum n, rest)"
    by (simp only: parse_number_stringify [OF assms] option.map prod.case)
  finally show ?thesis .
qed

lemma parse_value_literals:
  "parse_value (Suc k) (stringify JNull @ rest) = Some (JNull, rest)"
  "parse_value (Suc k) (stringify (JBool b) @ rest) = Some (JBool b, rest)"
  "parse_value (Suc k) (stringify (JArr []) @ rest) = Some (JArr [], rest)"
  "parse_value (Suc k) (stringify (JObj []) @ rest) = Some (JObj [], rest)"
  by (cases b; simp add: parse_value.simps skip_Cons Let_def)+

lemma parse_value_string:
  "parse_value (Suc k) (stringify (JStr s) @ rest) = Some (JStr s, rest)"
  using parse_chars_escape [of s rest]
  by (simp add: parse_value.simps skip_Cons Let_def quote_def)

lemma parse_elements_stringify:
  assumes "\<And>x k rest. x \<in> set xs \<Longrightarrow> Suc (size x) \<le> k \<Longrightarrow>
             rest = [] \<or> \<not> is_digit 10 (hd rest) \<Longrightarrow>
             parse_value k (stringify x @ rest) = Some (x, rest)"
    and "xs \<noteq> []" and "Suc (size_list size xs) \<le> k"
  shows "parse_elements k (commas (map stringify xs) @ CHR '']'' # rest) = Some (xs, rest)"
  using assms
proof (induction xs arbitrary: k)
  case Nil
  then show ?case by simp
next
  case (Cons x xs)
  obtain k' where k: "k = Suc k'" and fuel: "Suc (size x) \<le> k'" "size_list size xs < k'"
    using Cons.prems(3) by (cases k) auto
  show ?case
  proof (cases xs)
    case Nil
    have v: "parse_value k' (stringify x @ CHR '']'' # rest) = Some (x, CHR '']'' # rest)"
      using Cons.prems(1) [of x k' "CHR '']'' # rest"] fuel(1) by simp
    show ?thesis
      unfolding k Nil
      by (simp add: parse_elements.simps(2) v skip_Cons)
  next
    case (Cons y ys)
    let ?tail = "commas (map stringify xs) @ CHR '']'' # rest"
    have v: "parse_value k' (stringify x @ CHR '','' # ?tail) = Some (x, CHR '','' # ?tail)"
      using Cons.prems(1) [of x k' "CHR '','' # ?tail"] fuel(1) by simp
    have rec: "parse_elements k' ?tail = Some (xs, rest)"
      using Cons.IH [of k'] Cons.prems(1) fuel(2) Cons by simp
    have s: "commas (map stringify (x # xs)) @ CHR '']'' # rest
             = stringify x @ CHR '','' # ?tail"
      using Cons by simp
    show ?thesis
      unfolding k s
      by (simp add: parse_elements.simps(2) v rec skip_Cons)
  qed
qed

lemma parse_members_stringify:
  assumes "\<And>key v k rest. (key, v) \<in> set kvs \<Longrightarrow> Suc (size v) \<le> k \<Longrightarrow>
             rest = [] \<or> \<not> is_digit 10 (hd rest) \<Longrightarrow>
             parse_value k (stringify v @ rest) = Some (v, rest)"
    and "kvs \<noteq> []" and "Suc (size_list (\<lambda>(key, v). Suc (size v)) kvs) \<le> k"
  shows "parse_members k
           (commas (map (\<lambda>(key, v). quote key @ CHR '':'' # stringify v) kvs) @ CHR ''}'' # rest)
         = Some (kvs, rest)"
  using assms
proof (induction kvs arbitrary: k)
  case Nil
  then show ?case by simp
next
  case (Cons kv kvs)
  note IH = Cons.IH and prems = Cons.prems
  obtain key v where kv: "kv = (key, v)" by (cases kv)
  obtain k' where k: "k = Suc k'" and fuel: "Suc (size v) \<le> k'"
    "size_list (\<lambda>(key, v). Suc (size v)) kvs < k'"
    using prems(3) kv by (cases k) auto
  have key: "skip (quote key @ r) = quote key @ r" "prefix [CHR 0x22] (quote key @ r)"
    "parse_chars (tl (quote key @ r)) = Some (key, r)" for r
    using parse_chars_escape [of key r] by (simp_all add: quote_def skip_Cons)
  show ?case
  proof (cases kvs)
    case Nil
    have v: "parse_value k' (stringify v @ CHR ''}'' # rest) = Some (v, CHR ''}'' # rest)"
      using prems(1) [of key v k' "CHR ''}'' # rest"] fuel(1) kv by simp
    show ?thesis
      unfolding k Nil kv
      by (simp add: parse_members.simps(2) key v skip_Cons)
  next
    case (Cons kv' kvs')
    let ?tail = "commas (map (\<lambda>(key, v). quote key @ CHR '':'' # stringify v) kvs)
                 @ CHR ''}'' # rest"
    have v: "parse_value k' (stringify v @ CHR '','' # ?tail) = Some (v, CHR '','' # ?tail)"
      using prems(1) [of key v k' "CHR '','' # ?tail"] fuel(1) kv by simp
    have rec: "parse_members k' ?tail = Some (kvs, rest)"
    proof (rule IH)
      show "parse_value k (stringify v @ rest) = Some (v, rest)"
        if "(key, v) \<in> set kvs" "Suc (size v) \<le> k" "rest = [] \<or> \<not> is_digit 10 (hd rest)"
        for key v k rest
        using prems(1) [of key v k rest] that by simp
      show "kvs \<noteq> []" using Cons by simp
      show "Suc (size_list (\<lambda>(key, v). Suc (size v)) kvs) \<le> k'" using fuel(2) by simp
    qed
    have s: "commas (map (\<lambda>(key, v). quote key @ CHR '':'' # stringify v) (kv # kvs))
               @ CHR ''}'' # rest
             = quote key @ CHR '':'' # stringify v @ CHR '','' # ?tail"
      using Cons kv by simp
    show ?thesis
      unfolding k s
      by (simp add: parse_members.simps(2) key v rec skip_Cons kv)
  qed
qed

lemma size_members:
  "size_list (size_prod (\<lambda>x. 0) size) kvs = size_list (\<lambda>(key, v). Suc (size v)) kvs"
  by (induction kvs) (auto simp: size_prod_simp)

lemma commas_head:
  "xs \<noteq> [] \<Longrightarrow> \<exists>r. commas (map stringify xs) @ tail = stringify (hd xs) @ r"
  by (cases xs; cases "tl xs") auto

lemma members_head:
  "kvs \<noteq> [] \<Longrightarrow>
   \<exists>r. commas (map (\<lambda>(key, v). quote key @ CHR '':'' # stringify v) kvs) @ tail
       = stringify (JStr (fst (hd kvs))) @ r"
  by (cases kvs; cases "tl kvs") (auto split: prod.splits)

lemma parse_value_stringify:
  "Suc (size v) \<le> k \<Longrightarrow> rest = [] \<or> \<not> is_digit 10 (hd rest) \<Longrightarrow>
   parse_value k (stringify v @ rest) = Some (v, rest)"
proof (induction v arbitrary: k rest)
  case JNull
  then show ?case using parse_value_literals(1) by (cases k) simp_all
next
  case (JBool b)
  then show ?case using parse_value_literals(2) by (cases k) simp_all
next
  case (JNum n)
  then show ?case using parse_value_number by (cases k) simp_all
next
  case (JStr s)
  then show ?case using parse_value_string by (cases k) simp_all
next
  case (JArr xs)
  obtain k' where k: "k = Suc k'" and fuel: "Suc (size_list size xs) \<le> k'"
    using JArr.prems(1) by (cases k) auto
  show ?case
  proof (cases "xs = []")
    case True
    then show ?thesis unfolding k using parse_value_literals(3) by simp
  next
    case False
    let ?inner = "commas (map stringify xs) @ CHR '']'' # rest"
    obtain r where r: "?inner = stringify (hd xs) @ r"
      using commas_head [OF False] by blast
    have sk: "skip ?inner = ?inner" unfolding r by (rule skip_stringify)
    have nc: "prefix '']'' ?inner = False" unfolding r by (rule not_close_stringify)
    have el: "parse_elements k' ?inner = Some (xs, rest)"
      using JArr.IH False fuel by (intro parse_elements_stringify) auto
    have "parse_value (Suc k') (CHR ''['' # ?inner) = Some (JArr xs, rest)"
      by (simp add: parse_value.simps(2) skip_Cons Let_def sk nc el)
    then show ?thesis unfolding k by simp
  qed
next
  case (JObj kvs)
  obtain k' where k: "k = Suc k'"
    and fuel: "Suc (size_list (\<lambda>(key, v). Suc (size v)) kvs) \<le> k'"
    using JObj.prems(1) by (cases k) (auto simp: size_members)
  show ?case
  proof (cases "kvs = []")
    case True
    then show ?thesis unfolding k using parse_value_literals(4) by simp
  next
    case False
    let ?inner = "commas (map (\<lambda>(key, v). quote key @ CHR '':'' # stringify v) kvs)
                  @ CHR ''}'' # rest"
    obtain r where r: "?inner = stringify (JStr (fst (hd kvs))) @ r"
      using members_head [OF False] by blast
    have sk: "skip ?inner = ?inner" unfolding r by (rule skip_stringify)
    have nc: "prefix ''}'' ?inner = False" unfolding r by (rule not_close_stringify)
    have ih: "parse_value k (stringify v @ rest) = Some (v, rest)"
      if "(key, v) \<in> set kvs" "Suc (size v) \<le> k" "rest = [] \<or> \<not> is_digit 10 (hd rest)"
      for key v k rest
      using JObj.IH [of "(key, v)" v k rest] that by simp
    have me: "parse_members k' ?inner = Some (kvs, rest)"
      using ih False fuel by (intro parse_members_stringify) auto
    have "parse_value (Suc k') (CHR ''{'' # ?inner) = Some (JObj kvs, rest)"
      by (simp add: parse_value.simps(2) skip_Cons Let_def sk nc me)
    then show ?thesis unfolding k by simp
  qed
qed

lemma commas_length: "sum_list (map length ys) + length ys \<le> Suc (length (commas ys))"
  by (induction ys rule: commas.induct) auto

lemma size_list_le:
  assumes "\<And>x. x \<in> set xs \<Longrightarrow> f x \<le> length (g x)"
  shows "size_list f xs \<le> sum_list (map length (map g xs)) + length xs"
  using assms
proof (induction xs)
  case Nil
  then show ?case by simp
next
  case (Cons x xs)
  have "f x \<le> length (g x)" using Cons.prems by simp
  moreover have "size_list f xs \<le> sum_list (map length (map g xs)) + length xs"
    using Cons by simp
  ultimately show ?case by simp
qed

lemma size_le_length: "size v \<le> length (stringify v)"
proof (induction v)
  case (JArr xs)
  have "size_list size xs \<le> sum_list (map length (map stringify xs)) + length xs"
    using JArr by (intro size_list_le) simp
  also have "\<dots> \<le> Suc (length (commas (map stringify xs)))"
    using commas_length [of "map stringify xs"] by simp
  finally show ?case by simp
next
  case (JObj kvs)
  let ?m = "\<lambda>(key, v). quote key @ CHR '':'' # stringify v"
  have "size_prod (\<lambda>x. 0) size kv \<le> length (?m kv)" if "kv \<in> set kvs" for kv
  proof -
    obtain key v where kv: "kv = (key, v)" by (cases kv)
    have "size v \<le> length (stringify v)"
      using JObj [of kv v] that kv by simp
    then show ?thesis by (simp add: kv size_prod_simp quote_def)
  qed
  then have "size_list (size_prod (\<lambda>x. 0) size) kvs
      \<le> sum_list (map length (map ?m kvs)) + length kvs"
    by (intro size_list_le) simp
  also have "\<dots> \<le> Suc (length (commas (map ?m kvs)))"
    using commas_length [of "map ?m kvs"] by simp
  finally show ?case by simp
qed simp_all

lemma parse_stringify: "parse (stringify v) = Some v"
proof -
  have "parse_value (Suc (length (stringify v))) (stringify v @ []) = Some (v, [])"
    using size_le_length [of v] by (intro parse_value_stringify) simp_all
  then show ?thesis by (simp add: parse_def skip_def)
qed

lemma stringify_not_empty: "stringify v \<noteq> []"
  using stringify_head [of v] by auto

text \<open>
  So the reference runtime meets the hypothesis of the round trip of a report for every
  body.
\<close>

lemma reference_runtime_codec:
  "list_all (\<lambda>v. JSON_stringify (js_runtime u) v \<noteq> []
              \<and> JSON_parse (js_runtime u') (JSON_stringify (js_runtime u) v) = Some v) docs"
  by (simp add: list_all_iff js_runtime_def parse_stringify stringify_not_empty)

subsection \<open>Creating a report and reading it back\<close>

lemma find_app:
  "find P (xs @ ys) = (case find P xs of None \<Rightarrow> find P ys | Some x \<Rightarrow> Some x)"
  by (induction xs) auto

lemma insert_report_select:
  assumes "insert_report d r = Some d'"
  shows "select_report d' (r_id r) (r_user_id r) = Some r"
proof -
  have fresh: "\<not> list_ex (\<lambda>x. r_id x = r_id r) (tbl_reports d)"
    and d': "tbl_reports d' = tbl_reports d @ [r]"
    using assms by (auto simp: insert_report_def split: if_splits)
  have "find (\<lambda>x. r_id x = r_id r \<and> r_user_id x = r_user_id r) (tbl_reports d) = None"
    using fresh by (auto simp: find_None_iff_all list_ex_iff)
  then show ?thesis
    by (simp add: select_report_def d' find_app)
qed

text \<open>The 201 response carries the id member of the body; the row is stored under \<open>id || uuid\<close>.\<close>

lemma createReport_response_id:
  assumes "createReport rt d req uid = (resp, d')" and "status resp = 201"
    and "json_body req = Some b"
  shows "payload resp = ReportId (b_id b)"
    and "select_report d' (str_or (b_id b) (randomUUID rt)) uid
         = Some (encode_body rt b (str_or (b_id b) (randomUUID rt)) uid)"
proof -
  have ins: "insert_report d (encode_body rt b (str_or (b_id b) (randomUUID rt)) uid) = Some d'"
    and resp: "resp = jsonResponse (ReportId (b_id b)) 201"
    using assms by (auto simp: createReport_def thrownResponse_def split: option.splits)
  show "payload resp = ReportId (b_id b)"
    using resp by (simp add: jsonResponse_def)
  show "select_report d' (str_or (b_id b) (randomUUID rt)) uid
         = Some (encode_body rt b (str_or (b_id b) (randomUUID rt)) uid)"
    using insert_report_select [OF ins] by (simp add: encode_body_def)
qed

text \<open>
  C2. Bob posts a report without an id: the row is stored under the generated id
  \<open>uuid-42\<close>, and the 201 response carries \<open>{id: undefined}\<close>, not the generated id.
\<close>

theorem createReport_generated_id_not_returned:
  "fst (onRequest (js_runtime ''uuid-42'') db_r1
      \<lparr>req_method = ''POST'', pathname = ''/api/reports'',
        authorization = Some ''Bearer tok-b'', json_body = Some empty_body\<rparr>)
     = \<lparr>status = 201, payload = ReportId None\<rparr>
   \<and> map r_id (select_reports_by_user (snd (onRequest (js_runtime ''uuid-42'') db_r1
      \<lparr>req_method = ''POST'', pathname = ''/api/reports'',
        authorization = Some ''Bearer tok-b'', json_body = Some empty_body\<rparr>)) 2)
     = [''uuid-42'']"
  by code_simp







subsection \<open>What a request does to the users table\<close>

lemma fold_max_ge: "(a::int) \<le> fold max xs a \<and> (\<forall>x\<in>set xs. x \<le> fold max xs a)"
proof (induction xs arbitrary: a)
  case Nil
  then show ?case by simp
next
  case (Cons y ys)
  have "max y a \<le> fold max ys (max y a)" "\<forall>x\<in>set ys. x \<le> fold max ys (max y a)"
    using Cons.IH [of "max y a"] by simp_all
  then show ?case by auto
qed

lemma next_rowid_fresh: "next_rowid seq ids \<notin> set ids"
  using fold_max_ge [of seq ids] by (auto simp: next_rowid_def)

lemma users_step_insert:
  assumes "insert_user d name email university password token = Some (i, d')"
  shows "users_step token (tbl_users d) (tbl_users d')"
proof -
  let ?new = "\<lparr>u_id = next_rowid (users_seq d) (map u_id (tbl_users d)), u_name = name,
       u_email = email, u_university = university, u_password = password,
       u_token = Some token\<rparr>"
  have no: "\<not> list_ex (\<lambda>u. u_email u = email \<or> u_token u = Some token) (tbl_users d)"
    and d': "tbl_users d' = tbl_users d @ [?new]"
    using assms by (auto simp: insert_user_def Let_def split: if_splits)
  have "users_step token (tbl_users d) (tbl_users d @ [?new])"
  proof (rule users_step.added)
    show "u_id ?new \<notin> u_id ` set (tbl_users d)"
      using next_rowid_fresh [of "users_seq d" "map u_id (tbl_users d)"] by simp
    show "u_email ?new \<notin> u_email ` set (tbl_users d)"
      using no by (auto simp: list_ex_iff)
    show "u_token ?new = Some token" by simp
    show "Some token \<notin> u_token ` set (tbl_users d)"
      using no by (force simp: list_ex_iff)
  qed
  then show ?thesis by (simp add: d')
qed

lemma users_step_update:
  assumes "update_user_token d token uid = Some d'"
  shows "users_step token (tbl_users d) (tbl_users d')"
proof (cases "list_ex (\<lambda>u. u_id u = uid) (tbl_users d)")
  case True
  then have free: "\<forall>v\<in>set (tbl_users d). u_id v \<noteq> uid \<longrightarrow> u_token v \<noteq> Some token"
    and d': "tbl_users d' =
       map (\<lambda>u. if u_id u = uid then u\<lparr>u_token := Some token\<rparr> else u) (tbl_users d)"
    using assms by (auto simp: update_user_token_def list_ex_iff split: if_splits)
  show ?thesis
    unfolding d' using free by (rule users_step.relogin)
next
  case False
  then have "map (\<lambda>u. if u_id u = uid then u\<lparr>u_token := Some token\<rparr> else u) (tbl_users d)
      = tbl_users d"
    by (intro map_idI) (auto simp: list_ex_iff)
  then have "tbl_users d' = tbl_users d"
    using assms False by (auto simp: update_user_token_def split: if_splits)
  then show ?thesis by (simp add: users_step.same)
qed

lemma users_step_registerUser:
  "users_step (randomUUID rt) (tbl_users d) (tbl_users (snd (registerUser rt d req)))"
  by (auto simp: registerUser_def Let_def users_step.same users_step_insert
      split: option.splits)

lemma users_step_loginUser:
  "users_step (randomUUID rt) (tbl_users d) (tbl_users (snd (loginUser rt d req)))"
  by (auto simp: loginUser_def Let_def users_step.same users_step_update
      split: option.splits)

lemma users_step_handleAuth:
  "users_step (randomUUID rt) (tbl_users d) (tbl_users (snd (handleAuth rt d req path)))"
  by (auto simp: handleAuth_def users_step.same users_step_registerUser users_step_loginUser
      split: option.splits)


lemma users_getReports [simp]: "tbl_users (snd (getReports rt d uid)) = tbl_users d"
  by (simp add: getReports_def split: option.splits)

lemma users_getReport [simp]: "tbl_users (snd (getReport rt d uid rid)) = tbl_users d"
  by (simp add: getReport_def split: option.splits)

lemma users_createReport [simp]: "tbl_users (snd (createReport rt d req uid)) = tbl_users d"
  by (auto simp: createReport_def insert_report_def split: option.splits if_splits)

lemma users_updateReport [simp]:
  "tbl_users (snd (updateReport rt d req uid rid)) = tbl_users d"
  by (auto simp: updateReport_def update_report_def rows_affected_def Let_def
      split: option.splits if_splits)

lemma users_deleteReport [simp]: "tbl_users (snd (deleteReport d uid rid)) = tbl_users d"
  by (simp add: deleteReport_def delete_report_def rows_affected_def Let_def)

lemma users_searchReports [simp]: "tbl_users (snd (searchReports rt d req uid)) = tbl_users d"
  by (simp add: searchReports_def split: option.splits)

lemma users_getLists [simp]: "tbl_users (snd (getLists d uid)) = tbl_users d"
  by (simp add: getLists_def)

lemma users_createList [simp]: "tbl_users (snd (createList d req uid)) = tbl_users d"
  by (auto simp: createList_def insert_list_def Let_def split: option.splits if_splits)

lemma users_deleteList [simp]: "tbl_users (snd (deleteList d uid lid)) = tbl_users d"
  by (simp add: deleteList_def delete_list_def rows_affected_def Let_def split: option.splits)

lemma users_getList [simp]: "tbl_users (snd (getList d uid lid)) = tbl_users d"
  by (simp add: getList_def split: option.splits)

lemma users_updateList [simp]: "tbl_users (snd (updateList d req uid lid)) = tbl_users d"
  by (simp add: updateList_def update_list_name_def rows_affected_def Let_def
      split: option.splits)

lemma users_getReports_worker [simp]:
  "tbl_users (snd (getReports_worker rt d uid)) = tbl_users d"
  by (simp add: getReports_worker_def split: option.splits)

lemma users_getReport_worker [simp]:
  "tbl_users (snd (getReport_worker rt d uid rid)) = tbl_users d"
  by (simp add: getReport_worker_def split: option.splits)

lemma users_createReport_worker [simp]:
  "tbl_users (snd (createReport_worker d req uid)) = tbl_users d"
  by (simp add: createReport_worker_def)

lemma users_updateReport_worker [simp]:
  "tbl_users (snd (updateReport_worker rt d req uid rid)) = tbl_users d"
  by (auto simp: updateReport_worker_def update_report_def rows_affected_def Let_def
      split: option.splits if_splits)

lemma users_searchReports_worker [simp]:
  "tbl_users (snd (searchReports_worker rt d req uid)) = tbl_users d"
  by (simp add: searchReports_worker_def split: option.splits)

lemma users_deleteList_worker [simp]:
  "tbl_users (snd (deleteList_worker rt d uid lid)) = tbl_users d"
  by (simp add: deleteList_worker_def delete_list_def rows_affected_def Let_def
      split: option.splits)

lemma users_route_request_worker:
  "tbl_users (snd (route_request_worker rt d req path uid)) = tbl_users d"
  by (simp add: route_request_worker_def Let_def)

lemma users_route_request: "tbl_users (snd (route_request rt d req path uid)) = tbl_users d"
  by (simp add: route_request_def Let_def)

lemma users_route_request_full:
  "tbl_users (snd (route_request_full rt d req path uid)) = tbl_users d"
  by (simp add: route_request_full_def Let_def)

lemma users_step_onRequest:
  "users_step (randomUUID rt) (tbl_users d) (tbl_users (snd (onRequest rt d req)))"
  by (simp add: onRequest_def Let_def users_step.same users_step_handleAuth
      users_route_request split: option.splits)

lemma users_step_onRequest_full:
  "users_step (randomUUID rt) (tbl_users d) (tbl_users (snd (onRequest_full rt d req)))"
  by (simp add: onRequest_full_def Let_def users_step.same users_step_handleAuth
      users_route_request_full split: option.splits)

lemma users_step_handleRequest:
  "users_step (randomUUID rt) (tbl_users d) (tbl_users (snd (handleRequest rt d req)))"
  by (simp add: handleRequest_def Let_def users_step.same users_step_handleAuth
      users_route_request_worker split: option.splits)

lemma users_step_served:
  assumes "h = onRequest \<or> h = onRequest_full \<or> h = handleRequest"
  shows "users_step (randomUUID rt) (tbl_users d) (tbl_users (snd (h rt d req)))"
  using assms users_step_onRequest users_step_onRequest_full users_step_handleRequest by auto

subsection \<open>Consequences of a step: emails stay, tokens come from the generator\<close>

lemma relogin_keeps:
  "map u_id (map (\<lambda>u. if u_id u = uid then u\<lparr>u_token := Some t\<rparr> else u) us) = map u_id us"
  "map u_email (map (\<lambda>u. if u_id u = uid then u\<lparr>u_token := Some t\<rparr> else u) us) = map u_email us"
  by (induction us) auto

lemma users_step_emails:
  "users_step t us us' \<Longrightarrow> set (map u_email us) \<subseteq> set (map u_email us')"
proof (induction rule: users_step.induct)
  case same
  then show ?case by simp
next
  case (added new us)
  then show ?case by auto
next
  case (relogin us uid)
  show ?case by (simp only: relogin_keeps subset_refl)
qed

lemma users_step_tokens:
  assumes "users_step t us us'" and "x \<in> set us'"
  shows "u_token x = Some t \<or> u_token x \<in> set (map u_token us)"
  using assms
proof (induction rule: users_step.induct)
  case same
  then show ?case by simp
next
  case (added new us)
  then show ?case by auto
next
  case (relogin us uid)
  then obtain y where "y \<in> set us"
    and "x = (if u_id y = uid then y\<lparr>u_token := Some t\<rparr> else y)"
    by auto
  then show ?case by (cases "u_id y = uid") auto
qed

lemma users_inv_added:
  assumes "users_inv us" and "u_id new \<notin> u_id ` set us"
    and "u_token new = Some t" and "Some t \<notin> u_token ` set us"
  shows "users_inv (us @ [new])"
proof -
  have d: "distinct (map u_id (us @ [new]))"
    using assms(1,2) by (simp add: users_inv_def)
  have "u = v"
    if "u \<in> set (us @ [new])" "v \<in> set (us @ [new])" "u_token u = u_token v" "u_token u \<noteq> None"
    for u v
  proof (cases "u = new"; cases "v = new")
    assume "u = new" "v = new"
    then show ?thesis by simp
  next
    assume "u = new" "v \<noteq> new"
    then have "v \<in> set us" "u_token v = Some t" using that(2,3) assms(3) by auto
    then show ?thesis using assms(4) by (metis imageI)
  next
    assume "u \<noteq> new" "v = new"
    then have "u \<in> set us" "u_token u = Some t" using that(1,3) assms(3) by auto
    then show ?thesis using assms(4) by (metis imageI)
  next
    assume "u \<noteq> new" "v \<noteq> new"
    then have "u \<in> set us" "v \<in> set us" using that(1,2) by auto
    then show ?thesis using assms(1) that(3,4) unfolding users_inv_def by blast
  qed
  then show ?thesis
    unfolding users_inv_def using d by blast
qed

lemma users_inv_relogin:
  assumes "users_inv us" and "\<forall>v\<in>set us. u_id v \<noteq> uid \<longrightarrow> u_token v \<noteq> Some t"
  shows "users_inv (map (\<lambda>u. if u_id u = uid then u\<lparr>u_token := Some t\<rparr> else u) us)"
proof -
  let ?f = "\<lambda>u. if u_id u = uid then u\<lparr>u_token := Some t\<rparr> else u"
  have inj: "u = v" if "u \<in> set us" "v \<in> set us" "u_id u = u_id v" for u v
    using assms(1) that unfolding users_inv_def by (metis distinct_map inj_onD)
  have old: "u = v"
    if "u \<in> set us" "v \<in> set us" "u_token u = u_token v" "u_token u \<noteq> None" for u v
    using assms(1) that unfolding users_inv_def by blast
  have uniq: "?f u = ?f v"
    if "u \<in> set us" "v \<in> set us" "u_token (?f u) = u_token (?f v)" "u_token (?f u) \<noteq> None"
    for u v
  proof (cases "u_id u = uid"; cases "u_id v = uid")
    assume "u_id u = uid" "u_id v = uid"
    then have "u = v" using inj [OF that(1,2)] by simp
    then show ?thesis by simp
  next
    assume a: "u_id u = uid" "u_id v \<noteq> uid"
    then have "u_token v = Some t" using that(3) by simp
    then show ?thesis using assms(2) that(2) a(2) by blast
  next
    assume a: "u_id u \<noteq> uid" "u_id v = uid"
    then have "u_token u = Some t" using that(3) by simp
    then show ?thesis using assms(2) that(1) a(1) by blast
  next
    assume a: "u_id u \<noteq> uid" "u_id v \<noteq> uid"
    then have "u = v" using old [OF that(1,2)] that(3,4) by simp
    then show ?thesis by simp
  qed
  have "x = y"
    if xy: "x \<in> set (map ?f us)" "y \<in> set (map ?f us)" "u_token x = u_token y"
      "u_token x \<noteq> None"
    for x y
  proof -
    obtain u v where "u \<in> set us" "x = ?f u" "v \<in> set us" "y = ?f v"
      using xy(1,2) by auto
    then show ?thesis using uniq [of u v] xy(3,4) by blast
  qed
  moreover have "distinct (map u_id (map ?f us))"
    using assms(1) by (simp only: relogin_keeps users_inv_def)
  ultimately show ?thesis
    unfolding users_inv_def by blast
qed

lemma users_inv_step:
  assumes "users_step t us us'" and "users_inv us"
  shows "users_inv us'"
  using assms
proof (induction rule: users_step.induct)
  case same
  then show ?case by simp
next
  case (added new us)
  then show ?case by (simp add: users_inv_added)
next
  case (relogin us uid)
  then show ?case by (simp add: users_inv_relogin)
qed

lemma reachable_users_inv: "reachable d \<Longrightarrow> users_inv (tbl_users d)"
proof (induction rule: reachable.induct)
  case start
  then show ?case by (simp add: users_inv_def empty_db_def)
next
  case (step d rt req)
  then show ?case using users_inv_step [OF users_step_onRequest] by blast
next
  case (step_full d rt req)
  then show ?case using users_inv_step [OF users_step_onRequest_full] by blast
next
  case (step_worker d rt req)
  then show ?case using users_inv_step [OF users_step_handleRequest] by blast
qed

subsection \<open>Tokens and sessions\<close>

lemma findUserByToken_None_iff:
  "findUserByToken t d = None \<longleftrightarrow> Some t \<notin> set (map u_token (tbl_users d))"
proof -
  have "findUserByToken t d = None \<longleftrightarrow> (\<forall>u\<in>set (tbl_users d). u_token u \<noteq> Some t)"
    by (simp add: findUserByToken_def select_user_by_token_def find_None_iff_all)
  also have "\<dots> \<longleftrightarrow> Some t \<notin> set (map u_token (tbl_users d))"
    by force
  finally show ?thesis .
qed

lemma findUserByToken_SomeD:
  assumes "findUserByToken t d = Some pu"
  shows "\<exists>u\<in>set (tbl_users d). u_token u = Some t \<and> pu = public_user u"
  using assms find_Some_mem [of "\<lambda>u. u_token u = Some t" "tbl_users d"]
  by (auto simp: findUserByToken_def select_user_by_token_def)

lemma one_token_per_user:
  assumes "users_inv (tbl_users d)"
    and "findUserByToken t1 d = Some u1" and "findUserByToken t2 d = Some u2"
    and "pu_id u1 = pu_id u2"
  shows "t1 = t2"
proof -
  obtain r1 where r1: "r1 \<in> set (tbl_users d)" "u_token r1 = Some t1" "u1 = public_user r1"
    using findUserByToken_SomeD [OF assms(2)] by blast
  obtain r2 where r2: "r2 \<in> set (tbl_users d)" "u_token r2 = Some t2" "u2 = public_user r2"
    using findUserByToken_SomeD [OF assms(3)] by blast
  have "u_id r1 = u_id r2"
    using assms(4) r1(3) r2(3) by (simp add: public_user_def)
  then have "r1 = r2"
    using assms(1) r1(1) r2(1) unfolding users_inv_def by (metis distinct_map inj_onD)
  then show ?thesis using r1(2) r2(2) by simp
qed

lemma run_token_absent:
  assumes "h = onRequest \<or> h = onRequest_full \<or> h = handleRequest"
    and "list_all (\<lambda>x. randomUUID (fst x) \<noteq> old) later"
    and "Some old \<notin> set (map u_token (tbl_users d))"
  shows "Some old \<notin> set (map u_token (tbl_users (run h later d)))"
  using assms(2,3)
proof (induction later arbitrary: d)
  case Nil
  then show ?case by simp
next
  case (Cons x later)
  obtain rt req where x: "x = (rt, req)" by (cases x)
  have fresh: "randomUUID rt \<noteq> old" and rest: "list_all (\<lambda>x. randomUUID (fst x) \<noteq> old) later"
    using Cons.prems(1) x by simp_all
  have "Some old \<notin> set (map u_token (tbl_users (snd (h rt d req))))"
    using users_step_tokens [OF users_step_served [OF assms(1), of rt d req]]
      fresh Cons.prems(2) by fastforce
  then show ?case
    using Cons.IH [OF rest] x by simp
qed

lemma run_emails:
  assumes "h = onRequest \<or> h = onRequest_full \<or> h = handleRequest"
    and "e \<in> set (map u_email (tbl_users d))"
  shows "e \<in> set (map u_email (tbl_users (run h later d)))"
  using assms(2)
proof (induction later arbitrary: d)
  case Nil
  then show ?case by simp
next
  case (Cons x later)
  obtain rt req where x: "x = (rt, req)" by (cases x)
  have "e \<in> set (map u_email (tbl_users (snd (h rt d req))))"
    using users_step_emails [OF users_step_served [OF assms(1), of rt d req]] Cons.prems
    by blast
  then show ?case
    using Cons.IH x by simp
qed

subsection \<open>Registering the same email again\<close>

lemma register_route:
  assumes "h = onRequest \<or> h = onRequest_full \<or> h = handleRequest"
    and "req_method req = ''POST''" and "route_path req = ''/auth/register''"
  shows "h rt d req = registerUser rt d req"
  using assms
  by (auto simp: onRequest_def onRequest_full_def handleRequest_def handleAuth_def
      startsWith_def)

lemma registerUser_created:
  assumes "registerUser rt d req = (resp, d')" and "status resp = 201"
    and "json_body req = Some b"
  shows "\<not> missing (b_email b) \<and> the (b_email b) \<in> set (map u_email (tbl_users d'))"
  using assms
  by (auto simp: registerUser_def Let_def insert_user_def errorResponse_def thrownResponse_def
      split: option.splits if_splits)

lemma registerUser_conflict:
  assumes "json_body req = Some b"
    and "\<not> missing (b_name b)" "\<not> missing (b_email b)" "\<not> missing (b_university b)"
      "\<not> missing (b_password b)"
    and "the (b_email b) \<in> set (map u_email (tbl_users d))"
  shows "registerUser rt d req = (errorResponse ''Email already registered.'' 409, d)"
proof -
  have "select_user_by_email d (the (b_email b)) \<noteq> None"
    using assms(6) by (auto simp: select_user_by_email_def find_None_iff_all)
  then show ?thesis
    using assms(1-5) by (auto simp: registerUser_def Let_def)
qed

text \<open>
  C7 (amended). When a register request has succeeded (201), any later register request
  with the same email whose name, university and password are all present is answered
  with 409 ``Email already registered.'' and changes nothing, whatever those three
  values are and whatever requests were served in between.
\<close>

theorem second_register_conflicts:
  assumes "h = onRequest \<or> h = onRequest_full \<or> h = handleRequest"
    and "req_method req1 = ''POST''" and "route_path req1 = ''/auth/register''"
    and "json_body req1 = Some b1"
    and "h rt1 d0 req1 = (resp1, d1)" and "status resp1 = 201"
    and "req_method req2 = ''POST''" and "route_path req2 = ''/auth/register''"
    and "json_body req2 = Some b2"
    and "b_email b2 = b_email b1"
    and "\<not> missing (b_name b2)" and "\<not> missing (b_university b2)"
    and "\<not> missing (b_password b2)"
  shows "h rt2 (run h between d1) req2 =
           (errorResponse ''Email already registered.'' 409, run h between d1)"
proof -
  have "registerUser rt1 d0 req1 = (resp1, d1)"
    using register_route [OF assms(1,2,3)] assms(5) by simp
  then have email: "\<not> missing (b_email b1)"
    and "the (b_email b1) \<in> set (map u_email (tbl_users d1))"
    using registerUser_created assms(4,6) by blast+
  then have "the (b_email b1) \<in> set (map u_email (tbl_users (run h between d1)))"
    using run_emails [OF assms(1)] by blast
  then have "registerUser rt2 (run h between d1) req2 =
           (errorResponse ''Email already registered.'' 409, run h between d1)"
    using registerUser_conflict [OF assms(9)] assms(10-13) email by simp
  then show ?thesis
    using register_route [OF assms(1,7,8)] by simp
qed

theorem second_register_conflicts_witness:
  "onRequest (js_runtime ''tok-c'') db_users
     (register (alice_body\<lparr>b_name := Some ''Mallory'', b_password := Some ''other''\<rparr>))
   = (errorResponse ''Email already registered.'' 409, db_users)"
proof -
  let ?rt1 = "js_runtime ''tok-a''"
  let ?req1 = "register alice_body"
  let ?b2 = "alice_body\<lparr>b_name := Some ''Mallory'', b_password := Some ''other''\<rparr>"
  let ?req2 = "register ?b2"
  let ?between = "[(js_runtime ''tok-b'', register bob_body)]"
  have h: "onRequest = onRequest \<or> onRequest = onRequest_full \<or> onRequest = handleRequest"
    by simp
  have r1: "req_method ?req1 = ''POST''" "route_path ?req1 = ''/auth/register''"
    "json_body ?req1 = Some alice_body"
    by code_simp+
  have first: "onRequest ?rt1 empty_db ?req1
      = (fst (onRequest ?rt1 empty_db ?req1), snd (onRequest ?rt1 empty_db ?req1))"
    by simp
  have created: "status (fst (onRequest ?rt1 empty_db ?req1)) = 201" by code_simp
  have r2: "req_method ?req2 = ''POST''" "route_path ?req2 = ''/auth/register''"
    "json_body ?req2 = Some ?b2"
    by code_simp+
  have b2: "b_email ?b2 = b_email alice_body" "\<not> missing (b_name ?b2)"
    "\<not> missing (b_university ?b2)" "\<not> missing (b_password ?b2)"
    by code_simp+
  have later: "run onRequest ?between (snd (onRequest ?rt1 empty_db ?req1)) = db_users"
    by (simp add: db_users_def)
  show ?thesis
    using second_register_conflicts [OF h r1 first created r2 b2,
        of "js_runtime ''tok-c''" ?between]
    unfolding later .
qed

text \<open>
  The second of two register requests with the same email is answered with 400 when its
  name is empty: the check for missing fields comes before the lookup of the email.
\<close>

theorem second_register_missing_name_is_400:
  "status (fst (onRequest (js_runtime ''tok-a'') empty_db (register alice_body))) = 201
   \<and> b_email (alice_body\<lparr>b_name := Some []\<rparr>) = b_email alice_body
   \<and> status (fst (onRequest (js_runtime ''tok-c'')
         (snd (onRequest (js_runtime ''tok-a'') empty_db (register alice_body)))
         (register (alice_body\<lparr>b_name := Some []\<rparr>)))) = 400"
  by code_simp

subsection \<open>A login replaces the token\<close>

lemma loginUser_ok:
  assumes "loginUser rt d req = (resp, d')" and "status resp = 200"
  shows "\<exists>w\<in>set (tbl_users d).
           resp = jsonResponse (AuthOk (public_user w) (randomUUID rt)) 200
         \<and> update_user_token d (randomUUID rt) (u_id w) = Some d'"
proof -
  obtain b where b: "json_body req = Some b"
    using assms by (cases "json_body req") (auto simp: loginUser_def thrownResponse_def)
  have nm: "\<not> (missing (b_email b) \<or> missing (b_password b))"
    using assms b by (auto simp: loginUser_def errorResponse_def)
  obtain w where w: "select_user_by_login d (the (b_email b)) (the (b_password b)) = Some w"
    using assms b nm
    by (cases "select_user_by_login d (the (b_email b)) (the (b_password b))")
       (auto simp: loginUser_def errorResponse_def)
  have mem: "w \<in> set (tbl_users d)"
    using w find_Some_mem unfolding select_user_by_login_def by fastforce
  have "resp = jsonResponse (AuthOk (public_user w) (randomUUID rt)) 200
         \<and> update_user_token d (randomUUID rt) (u_id w) = Some d'"
    using assms b nm w
    by (auto simp: loginUser_def Let_def thrownResponse_def split: option.splits)
  then show ?thesis using mem by blast
qed

lemma update_user_token_SomeD:
  assumes "update_user_token d t uid = Some d'" and "w \<in> set (tbl_users d)" and "u_id w = uid"
  shows "tbl_users d' = map (\<lambda>u. if u_id u = uid then u\<lparr>u_token := Some t\<rparr> else u) (tbl_users d)"
    and "\<forall>v\<in>set (tbl_users d). u_id v \<noteq> uid \<longrightarrow> u_token v \<noteq> Some t"
  using assms by (auto simp: update_user_token_def list_ex_iff split: if_splits)

lemma relogin_new_token:
  assumes "users_inv us" and "w \<in> set us"
    and "\<forall>v\<in>set us. u_id v \<noteq> u_id w \<longrightarrow> u_token v \<noteq> Some t"
  shows "map_option public_user
           (find (\<lambda>u. u_token u = Some t)
              (map (\<lambda>u. if u_id u = u_id w then u\<lparr>u_token := Some t\<rparr> else u) us))
         = Some (public_user w)"
proof -
  let ?f = "\<lambda>u. if u_id u = u_id w then u\<lparr>u_token := Some t\<rparr> else u"
  have "?f w \<in> set (map ?f us)" using assms(2) by (rule imageI [of w "set us" ?f, simplified set_map [symmetric]])
  moreover have "u_token (?f w) = Some t" by simp
  ultimately have "find (\<lambda>u. u_token u = Some t) (map ?f us) \<noteq> None"
    unfolding find_None_iff_all by blast
  then obtain x where x: "find (\<lambda>u. u_token u = Some t) (map ?f us) = Some x" by blast
  then have "x \<in> set (map ?f us)" "u_token x = Some t"
    using find_Some_mem [OF x] by simp_all
  then obtain v where v: "v \<in> set us" "x = ?f v" by auto
  have "u_id v = u_id w"
    using assms(3) v \<open>u_token x = Some t\<close> by (cases "u_id v = u_id w") auto
  then have "v = w"
    using assms(1,2) v(1) unfolding users_inv_def by (metis distinct_map inj_onD)
  then have "public_user x = public_user w"
    using v(2) by (simp add: public_user_def)
  then show ?thesis using x by simp
qed

lemma relogin_old_token:
  assumes "users_inv us" and "w \<in> set us" and "x \<in> set us"
    and "u_token x = Some old" and "u_id x = u_id w" and "old \<noteq> t"
  shows "Some old \<notin> set (map u_token
           (map (\<lambda>u. if u_id u = u_id w then u\<lparr>u_token := Some t\<rparr> else u) us))"
proof
  let ?f = "\<lambda>u. if u_id u = u_id w then u\<lparr>u_token := Some t\<rparr> else u"
  assume "Some old \<in> set (map u_token (map ?f us))"
  then obtain v where v: "v \<in> set us" "u_token (?f v) = Some old" by auto
  have other: "u_id v \<noteq> u_id w"
    using v(2) assms(6) by (cases "u_id v = u_id w") auto
  then have "u_token v = Some old" using v(2) by simp
  then have "v = x"
    using assms(1,3,4) v(1) unfolding users_inv_def by (metis option.distinct(1))
  then show False using other assms(5) by simp
qed

lemma invalid_token_401:
  assumes "h = onRequest \<or> h = onRequest_full \<or> h = handleRequest"
    and "findUserByToken old d = None" and "extractToken req = Some old"
    and "req_method req \<noteq> ''OPTIONS''"
    and "\<not> startsWith (route_path req) ''/auth/''
         \<or> (route_path req = ''/auth/me'' \<and> req_method req = ''GET'')"
  shows "status (fst (h rt d req)) = 401 \<and> snd (h rt d req) = d"
  using assms
  by (auto simp: onRequest_def onRequest_full_def handleRequest_def handleAuth_def
      errorResponse_def Let_def startsWith_def)

lemma login_invalidates:
  assumes "reachable d"
    and "loginUser rt d req = (resp, d')" and "status resp = 200"
    and "payload resp = AuthOk user tok"
    and "findUserByToken old d = Some who" and "pu_id who = pu_id user"
    and "old \<noteq> randomUUID rt"
    and "h = onRequest \<or> h = onRequest_full \<or> h = handleRequest"
    and "list_all (\<lambda>x. randomUUID (fst x) \<noteq> old) later"
  shows "tok = randomUUID rt" and "findUserByToken tok d' = Some user"
    and "findUserByToken old (run h later d') = None"
proof -
  have inv: "users_inv (tbl_users d)"
    using assms(1) by (rule reachable_users_inv)
  obtain w where w: "w \<in> set (tbl_users d)"
    and resp: "resp = jsonResponse (AuthOk (public_user w) (randomUUID rt)) 200"
    and upd: "update_user_token d (randomUUID rt) (u_id w) = Some d'"
    using loginUser_ok [OF assms(2,3)] by blast
  have user: "user = public_user w" and tok: "tok = randomUUID rt"
    using resp assms(4) by (simp_all add: jsonResponse_def)
  note users' = update_user_token_SomeD [OF upd w refl]
  show "tok = randomUUID rt" by (rule tok)
  show "findUserByToken tok d' = Some user"
    unfolding findUserByToken_def select_user_by_token_def users'(1) tok user
    using inv w users'(2) by (rule relogin_new_token)
  obtain x where x: "x \<in> set (tbl_users d)" "u_token x = Some old" "who = public_user x"
    using findUserByToken_SomeD [OF assms(5)] by blast
  have "u_id x = u_id w"
    using assms(6) x(3) user by (simp add: public_user_def)
  then have "Some old \<notin> set (map u_token (tbl_users d'))"
    unfolding users'(1) using relogin_old_token [OF inv w x(1,2) _ assms(7)] by blast
  then have "Some old \<notin> set (map u_token (tbl_users (run h later d')))"
    using run_token_absent [OF assms(8,9)] by blast
  then show "findUserByToken old (run h later d') = None"
    by (simp only: findUserByToken_None_iff not_False_eq_True)
qed

text \<open>
  C8 (amended). In every reachable store, two tokens that resolve to the same user id
  are equal (a user has at most one live token). If a login succeeds, its response
  carries the value the generator returned, that value now resolves to the user, and a
  different token that resolved to this user before resolves to nobody afterwards, for
  as long as the generator does not return it again: a request that needs a session (any
  method but OPTIONS, on a path outside \<open>/auth/\<close> or GET \<open>/auth/me\<close>) and bears the old
  token is answered with 401 and changes nothing.
\<close>

theorem login_replaces_token:
  assumes "reachable d"
  shows "(\<forall>t1 t2 u1 u2. findUserByToken t1 d = Some u1 \<and> findUserByToken t2 d = Some u2
            \<and> pu_id u1 = pu_id u2 \<longrightarrow> t1 = t2)
       \<and> (\<forall>rt req resp d' user tok old who h later rt' req'.
            loginUser rt d req = (resp, d') \<and> status resp = 200
            \<and> payload resp = AuthOk user tok
            \<and> findUserByToken old d = Some who \<and> pu_id who = pu_id user
            \<and> old \<noteq> randomUUID rt
            \<and> (h = onRequest \<or> h = onRequest_full \<or> h = handleRequest)
            \<and> list_all (\<lambda>x. randomUUID (fst x) \<noteq> old) later
          \<longrightarrow> tok = randomUUID rt \<and> findUserByToken tok d' = Some user
            \<and> findUserByToken old (run h later d') = None
            \<and> (req_method req' \<noteq> ''OPTIONS'' \<and> extractToken req' = Some old
                \<and> (\<not> startsWith (route_path req') ''/auth/''
                    \<or> (route_path req' = ''/auth/me'' \<and> req_method req' = ''GET''))
               \<longrightarrow> status (fst (h rt' (run h later d') req')) = 401
                 \<and> snd (h rt' (run h later d') req') = run h later d'))"
proof -
  have one: "t1 = t2"
    if "findUserByToken t1 d = Some u1" "findUserByToken t2 d = Some u2" "pu_id u1 = pu_id u2"
    for t1 t2 u1 u2
    using one_token_per_user [OF reachable_users_inv [OF assms] that] .
  have two: "tok = randomUUID rt \<and> findUserByToken tok d' = Some user
            \<and> findUserByToken old (run h later d') = None
            \<and> (req_method req' \<noteq> ''OPTIONS'' \<and> extractToken req' = Some old
                \<and> (\<not> startsWith (route_path req') ''/auth/''
                    \<or> (route_path req' = ''/auth/me'' \<and> req_method req' = ''GET''))
               \<longrightarrow> status (fst (h rt' (run h later d') req')) = 401
                 \<and> snd (h rt' (run h later d') req') = run h later d')"
    if "loginUser rt d req = (resp, d')" "status resp = 200" "payload resp = AuthOk user tok"
      "findUserByToken old d = Some who" "pu_id who = pu_id user" "old \<noteq> randomUUID rt"
      "h = onRequest \<or> h = onRequest_full \<or> h = handleRequest" "list_all (\<lambda>x. randomUUID (fst x) \<noteq> old) later"
    for rt req resp d' user tok old who h later rt' req'
  proof -
    note l = login_invalidates [OF assms that]
    show ?thesis
      using l invalid_token_401 [OF that(7) l(3), of req' rt'] by blast
  qed
  have "\<forall>t1 t2 u1 u2. findUserByToken t1 d = Some u1 \<and> findUserByToken t2 d = Some u2
            \<and> pu_id u1 = pu_id u2 \<longrightarrow> t1 = t2"
    using one by blast
  moreover have "\<forall>rt req resp d' user tok old who h later rt' req'.
            loginUser rt d req = (resp, d') \<and> status resp = 200
            \<and> payload resp = AuthOk user tok
            \<and> findUserByToken old d = Some who \<and> pu_id who = pu_id user
            \<and> old \<noteq> randomUUID rt
            \<and> (h = onRequest \<or> h = onRequest_full \<or> h = handleRequest)
            \<and> list_all (\<lambda>x. randomUUID (fst x) \<noteq> old) later
          \<longrightarrow> tok = randomUUID rt \<and> findUserByToken tok d' = Some user
            \<and> findUserByToken old (run h later d') = None
            \<and> (req_method req' \<noteq> ''OPTIONS'' \<and> extractToken req' = Some old
                \<and> (\<not> startsWith (route_path req') ''/auth/''
                    \<or> (route_path req' = ''/auth/me'' \<and> req_method req' = ''GET''))
               \<longrightarrow> status (fst (h rt' (run h later d') req')) = 401
                 \<and> snd (h rt' (run h later d') req') = run h later d')"
  proof (intro allI impI)
    fix rt req resp d' user tok old who
      and h :: "runtime \<Rightarrow> db \<Rightarrow> request \<Rightarrow> response \<times> db"
      and later :: "(runtime \<times> request) list" and rt' :: runtime and req' :: request
    assume a: "loginUser rt d req = (resp, d') \<and> status resp = 200
            \<and> payload resp = AuthOk user tok
            \<and> findUserByToken old d = Some who \<and> pu_id who = pu_id user
            \<and> old \<noteq> randomUUID rt
            \<and> (h = onRequest \<or> h = onRequest_full \<or> h = handleRequest)
            \<and> list_all (\<lambda>x. randomUUID (fst x) \<noteq> old) later"
    show "tok = randomUUID rt \<and> findUserByToken tok d' = Some user
            \<and> findUserByToken old (run h later d') = None
            \<and> (req_method req' \<noteq> ''OPTIONS'' \<and> extractToken req' = Some old
                \<and> (\<not> startsWith (route_path req') ''/auth/''
                    \<or> (route_path req' = ''/auth/me'' \<and> req_method req' = ''GET''))
               \<longrightarrow> status (fst (h rt' (run h later d') req')) = 401
                 \<and> snd (h rt' (run h later d') req') = run h later d')"
      using a by (intro two) (elim conjE, assumption)+
  qed
  ultimately show ?thesis by (rule conjI)
qed

lemma reachable_run: "reachable d \<Longrightarrow> reachable (run onRequest reqs d)"
proof (induction reqs arbitrary: d)
  case Nil
  then show ?case by simp
next
  case (Cons x reqs)
  obtain rt req where x: "x = (rt, req)" by (cases x)
  show ?case
    using Cons.IH [OF reachable.step [OF Cons.prems, of rt req]] x by simp
qed

theorem login_replaces_token_witness:
  "findUserByToken ''tok-a2'' (snd (loginUser (js_runtime ''tok-a2'') db_users login_alice))
     = Some alice
   \<and> status (fst (onRequest (js_runtime ''u-8'')
        (run onRequest [(js_runtime ''tok-b2'', register bob_body)]
           (snd (loginUser (js_runtime ''tok-a2'') db_users login_alice)))
        (bare ''GET'' ''/api/reports'' ''tok-a''))) = 401"
proof -
  let ?rt = "js_runtime ''tok-a2''"
  let ?resp = "fst (loginUser ?rt db_users login_alice)"
  let ?d' = "snd (loginUser ?rt db_users login_alice)"
  let ?later = "[(js_runtime ''tok-b2'', register bob_body)]"
  let ?req' = "bare ''GET'' ''/api/reports'' ''tok-a''"
  have reach: "reachable db_users"
    unfolding db_users_def by (rule reachable_run [OF reachable.start])
  have a: "loginUser ?rt db_users login_alice = (?resp, ?d') \<and> status ?resp = 200
      \<and> payload ?resp = AuthOk alice ''tok-a2''
      \<and> findUserByToken ''tok-a'' db_users = Some alice \<and> pu_id alice = pu_id alice
      \<and> ''tok-a'' \<noteq> randomUUID ?rt
      \<and> (onRequest = onRequest \<or> onRequest = onRequest_full \<or> onRequest = handleRequest)
      \<and> list_all (\<lambda>x. randomUUID (fst x) \<noteq> ''tok-a'') ?later"
  proof (intro conjI)
    show "loginUser ?rt db_users login_alice = (?resp, ?d')" by simp
    show "status ?resp = 200" by code_simp
    show "payload ?resp = AuthOk alice ''tok-a2''" by code_simp
    show "findUserByToken ''tok-a'' db_users = Some alice" by code_simp
    show "pu_id alice = pu_id alice" by simp
    show "''tok-a'' \<noteq> randomUUID ?rt" by code_simp
    show "onRequest = onRequest \<or> onRequest = onRequest_full \<or> onRequest = handleRequest" by simp
    show "list_all (\<lambda>x. randomUUID (fst x) \<noteq> ''tok-a'') ?later" by code_simp
  qed
  have b: "req_method ?req' \<noteq> ''OPTIONS'' \<and> extractToken ?req' = Some ''tok-a''
      \<and> (\<not> startsWith (route_path ?req') ''/auth/''
          \<or> (route_path ?req' = ''/auth/me'' \<and> req_method ?req' = ''GET''))"
    by code_simp
  note t = login_replaces_token [OF reach, THEN conjunct2, rule_format, OF a,
      where ?rt' = "js_runtime ''u-8''" and ?req' = ?req']
  show ?thesis
    using t b by (simp only: simp_thms)
qed

text \<open>
  After Alice has logged in again, a preflight request that bears her previous token is
  answered with 200: OPTIONS is served before any token is read.
\<close>

theorem old_token_on_preflight_is_200:
  "map_option pu_id (findUserByToken ''tok-a'' db_users) = Some 1
   \<and> fst (onRequest (js_runtime ''tok-a2'') db_users login_alice)
       = jsonResponse (AuthOk alice ''tok-a2'') 200
   \<and> findUserByToken ''tok-a''
        (snd (onRequest (js_runtime ''tok-a2'') db_users login_alice)) = None
   \<and> status (fst (onRequest (js_runtime ''u-4'')
         (snd (onRequest (js_runtime ''tok-a2'') db_users login_alice))
         (bare ''OPTIONS'' ''/api/reports'' ''tok-a''))) = 200"
  by code_simp

end
